theory Spec2Isabelle
  imports Complex_Main "HOL-Library.Multiset" "HOL-Library.Multiset_Order"
begin

section \<open>Burrow: a resilient message-broker client\<close>

text \<open>
  A shallow embedding of the TypeScript sources of the repository: the connection
  manager (connection.ts), the publisher (publisher.ts), the consumer (consumer.ts)
  and the bridge (bridge.ts).

  Conventions of the embedding.
  \<^item> The broker client library (amqplib) is the environment. Every call into it
    that can fail, and every caller-supplied callback, has its outcome supplied as an
    argument of the model, so that each \<open>try\<close>/\<open>catch\<close> of the source is a
    branch of the model.
  \<^item> Handles of connections, channels and consumer tags are natural numbers; an
    absent (\<open>null\<close>) handle is \<open>None\<close>.
  \<^item> A rejected promise or a thrown \<open>Error\<close> is \<open>Inl message\<close>; where a function
    can both throw and return a rejected promise, the two are told apart.
  \<^item> JavaScript numbers used as counters are natural numbers; delays and the
    backoff multiplier are reals, taken as exact. The retry cap, which the source
    only compares, is a \<open>number\<close> with its special values.
  \<^item> The log lines of the bridge are kept. Of the other components only the log
    lines that stand for a caught error are kept (a reconnect subscriber that throws,
    a failed message without an error callback).
  \<^item> An asynchronous function runs until it awaits. The connection manager is
    modelled event by event, with the suspended function as a continuation; the
    operations of the components are modelled as one run each, with the state in
    which a handler resumes as an argument where a claim depends on it.
\<close>

subsection \<open>Outcomes of calls into the environment\<close>

datatype outcome = Returns | Throws string

type_synonym conn = nat
type_synonym chan = nat

subsection \<open>Text helpers\<close>

text \<open>
  Decimal rendering of a counter, as a template literal does it (\<open>digit_char\<close> is
  only ever applied to a number below 10).
\<close>

definition digit_char :: "nat \<Rightarrow> char" where
  "digit_char d = ''0123456789'' ! d"

fun show_nat :: "nat \<Rightarrow> string" where
  "show_nat n =
     (if n < 10 then [digit_char n]
      else show_nat (n div 10) @ [digit_char (n mod 10)])"

declare show_nat.simps [simp del]

text \<open>\<open>s.includes(p)\<close> of JavaScript: \<open>p\<close> occurs in \<open>s\<close> as a contiguous run.\<close>

fun str_includes :: "string \<Rightarrow> string \<Rightarrow> bool" where
  "str_includes [] p = (p = [])"
| "str_includes (c # cs) p = (take (length p) (c # cs) = p \<or> str_includes cs p)"

subsection \<open>Connection manager: state and subscriber set (connection.ts)\<close>

datatype ConnectionState = disconnected | connecting | connected | reconnecting

text \<open>
  \<open>ConnectionManagerState\<close>. The subscribers are a JavaScript \<open>Set\<close> of callbacks:
  its entries in insertion order, a deleted entry leaving an empty slot (\<open>None\<close>)
  behind, as the language defines it; this is what an iteration that is under way
  observes. \<open>'cb\<close> is the identity of a callback.
\<close>

record 'cb ConnectionManagerState =
  connection :: "conn option"
  state :: ConnectionState
  isShuttingDown :: bool
  reconnectSubscribers :: "'cb option list"

text \<open>\<open>Set.prototype.add\<close> and \<open>Set.prototype.delete\<close>.\<close>

definition set_add :: "'cb \<Rightarrow> 'cb option list \<Rightarrow> 'cb option list" where
  "set_add c xs = (if Some c \<in> set xs then xs else xs @ [Some c])"

definition set_delete :: "'cb \<Rightarrow> 'cb option list \<Rightarrow> 'cb option list" where
  "set_delete c xs = map (\<lambda>e. if e = Some c then None else e) xs"

text \<open>
  \<open>onReconnect(callback)\<close> adds the callback; the function it returns deletes that
  callback again (\<open>unsubscribe\<close>).
\<close>

definition onReconnect :: "'cb \<Rightarrow> 'cb ConnectionManagerState \<Rightarrow> 'cb ConnectionManagerState" where
  "onReconnect cb m = m\<lparr>reconnectSubscribers := set_add cb (reconnectSubscribers m)\<rparr>"

definition unsubscribe :: "'cb \<Rightarrow> 'cb ConnectionManagerState \<Rightarrow> 'cb ConnectionManagerState" where
  "unsubscribe cb m = m\<lparr>reconnectSubscribers := set_delete cb (reconnectSubscribers m)\<rparr>"

definition isConnected :: "'cb ConnectionManagerState \<Rightarrow> bool" where
  "isConnected m = (state m = connected \<and> connection m \<noteq> None)"

definition getState :: "'cb ConnectionManagerState \<Rightarrow> ConnectionState" where
  "getState m = state m"

definition getConnection :: "'cb ConnectionManagerState \<Rightarrow> conn option" where
  "getConnection m = connection m"

text \<open>
  \<open>createChannel\<close> and \<open>createConfirmChannel\<close>: absent when there is no connection
  handle, or when the broker client fails to open the channel.
\<close>

datatype channel_open = Opened chan | OpenFails string

definition createChannel :: "'cb ConnectionManagerState \<Rightarrow> channel_open \<Rightarrow> chan option" where
  "createChannel m r =
     (case connection m of
        None \<Rightarrow> None
      | Some c \<Rightarrow> (case r of Opened ch \<Rightarrow> Some ch | OpenFails e \<Rightarrow> None))"

definition createConfirmChannel :: "'cb ConnectionManagerState \<Rightarrow> channel_open \<Rightarrow> chan option" where
  "createConfirmChannel m r =
     (case connection m of
        None \<Rightarrow> None
      | Some c \<Rightarrow> (case r of Opened ch \<Rightarrow> Some ch | OpenFails e \<Rightarrow> None))"

subsection \<open>Connection manager: configuration and metrics\<close>

text \<open>
  A JavaScript number, for the retry cap \<open>maxRetries\<close>: the source tests
  \<open>maxRetries !== -1\<close> (true of every number but \<open>-1\<close>, also of \<open>NaN\<close>) and
  \<open>attempt >= maxRetries\<close> (false whenever \<open>maxRetries\<close> is \<open>NaN\<close>).
\<close>

datatype number = Finite real | NaN | PosInfinity | NegInfinity

fun number_ge :: "nat \<Rightarrow> number \<Rightarrow> bool" where
  "number_ge a (Finite r) = (real a \<ge> r)"
| "number_ge a NaN = False"
| "number_ge a PosInfinity = False"
| "number_ge a NegInfinity = True"

record ReconnectConfig =
  initialDelayMs :: real
  maxDelayMs :: real
  multiplier :: real
  maxRetries :: number

definition DEFAULT_RECONNECT :: ReconnectConfig where
  "DEFAULT_RECONNECT =
     \<lparr>initialDelayMs = 1000, maxDelayMs = 30000, multiplier = 2, maxRetries = Finite (- 1)\<rparr>"

text \<open>
  \<open>ResilientConnectionOptions\<close>: the merged reconnect configuration, and which of the
  optional observers the caller has supplied. (The broker address and the credentials
  are handed to the broker client as they are and play no part here.)
\<close>

record ResilientConnectionOptions =
  reconnect :: ReconnectConfig
  has_onConnect :: bool
  has_onDisconnect :: bool
  has_onReconnecting :: bool

text \<open>
  The part of the metrics collector (metrics.ts) that the connection manager writes;
  the message counters of the collector are never touched by it.
\<close>

record MutableMetrics =
  connectionState :: ConnectionState
  connectionsEstablished :: nat
  connectionsLost :: nat
  reconnectAttempt :: nat

definition metrics_initial :: MutableMetrics where
  "metrics_initial =
     \<lparr>connectionState = disconnected, connectionsEstablished = 0, connectionsLost = 0,
      reconnectAttempt = 0\<rparr>"

definition recordConnect :: "MutableMetrics \<Rightarrow> MutableMetrics" where
  "recordConnect x =
     x\<lparr>connectionsEstablished := connectionsEstablished x + 1, connectionState := connected,
       reconnectAttempt := 0\<rparr>"

definition recordDisconnect :: "MutableMetrics \<Rightarrow> MutableMetrics" where
  "recordDisconnect x =
     x\<lparr>connectionsLost := connectionsLost x + 1, connectionState := disconnected\<rparr>"

definition setConnectionState :: "ConnectionState \<Rightarrow> MutableMetrics \<Rightarrow> MutableMetrics" where
  "setConnectionState st x = x\<lparr>connectionState := st\<rparr>"

definition setReconnectAttempt :: "nat \<Rightarrow> MutableMetrics \<Rightarrow> MutableMetrics" where
  "setReconnectAttempt a x = x\<lparr>reconnectAttempt := a\<rparr>"

subsection \<open>Connection manager: notifying the reconnect subscribers\<close>

text \<open>
  What the manager does that the outside can see, newest first in a trace: calls of
  the broker client's \<open>connect\<close>, calls of the observers and of the subscribers,
  sleeps, and how each invocation of \<open>connectWithRetry\<close> begins and ends.
\<close>

datatype 'cb effect =
    LoopEntered
  | OnReconnectingCalled nat
  | ConnectCalled
  | OnConnectCalled
  | Notified 'cb
  | SubscriberErrorLogged 'cb
  | LoopConnected
  | LoopExited
  | LoopRejected string
  | SleepStarted real
  | OnDisconnectCalled

text \<open>
  What a subscriber does when it is called: the operations it performs on the
  subscriber set of the manager (\<open>onReconnect\<close> of a callback, or the
  \<open>unsubscribe\<close> of one), and whether it throws. A subscriber's behaviour \<open>beh\<close>
  may depend on everything that has happened so far (the trace).
\<close>

datatype 'cb sub_op = Add 'cb | Delete 'cb

record 'cb reaction =
  ops :: "'cb sub_op list"
  raises :: bool

fun apply_op :: "'cb sub_op \<Rightarrow> 'cb option list \<Rightarrow> 'cb option list" where
  "apply_op (Add c) xs = set_add c xs"
| "apply_op (Delete c) xs = set_delete c xs"

fun apply_ops :: "'cb sub_op list \<Rightarrow> 'cb option list \<Rightarrow> 'cb option list" where
  "apply_ops [] xs = xs"
| "apply_ops (x # rest) xs = apply_ops rest (apply_op x xs)"

text \<open>
  The loop \<open>for (const subscriber of state.reconnectSubscribers)\<close>. A \<open>Set\<close>
  iterator walks the entries by position and skips empty slots; entries appended
  while it runs are reached, entries deleted before their turn are not. A subscriber
  that throws is logged and the loop goes on. The loop need not end (a subscriber can
  keep appending), so it runs on fuel: \<open>None\<close> is "no result within the fuel".
\<close>

fun notify ::
  "nat \<Rightarrow> ('cb effect list \<Rightarrow> 'cb \<Rightarrow> 'cb reaction) \<Rightarrow> 'cb option list \<Rightarrow> nat \<Rightarrow> 'cb effect list
     \<Rightarrow> ('cb option list \<times> 'cb effect list) option"
where
  "notify 0 beh xs i tr = None"
| "notify (Suc f) beh xs i tr =
     (if i < length xs then
        (case xs ! i of
           None \<Rightarrow> notify f beh xs (i + 1) tr
         | Some c \<Rightarrow>
             notify f beh (apply_ops (ops (beh tr c)) xs) (i + 1)
               ((if raises (beh tr c) then [SubscriberErrorLogged c] else []) @ Notified c # tr))
      else Some (xs, tr))"

subsection \<open>Connection manager: the connect-with-retry loop and the event handlers\<close>

text \<open>
  \<open>connectWithRetry\<close> is an asynchronous function: it runs until it awaits, and goes
  on when the awaited promise settles. The model keeps the suspended invocation as a
  continuation: where it waits, with its local variables \<open>attempt\<close> and \<open>delay\<close>
  (and the failure message while it cleans up).
\<close>

datatype loop_state =
    Idle
  | AwaitConnect nat real
  | AwaitCleanup nat real string
  | Sleeping nat real

text \<open>
  The manager with its surroundings: its state, its metrics, the suspended
  \<open>connectWithRetry\<close>, the number of \<open>close()\<close> calls waiting for the connection to
  close, the connections that carry the manager's \<open>error\<close>/\<open>close\<close> listeners and have
  not emitted \<open>close\<close> yet, and the trace.
\<close>

record 'cb world =
  mgr :: "'cb ConnectionManagerState"
  met :: MutableMetrics
  loop :: loop_state
  closing :: nat
  listeners :: "conn list"
  trace :: "'cb effect list"

definition emit :: "'cb effect \<Rightarrow> 'cb world \<Rightarrow> 'cb world" where
  "emit e w = w\<lparr>trace := e # trace w\<rparr>"

text \<open>\<open>delay = Math.min(delay * multiplier, maxDelayMs)\<close>.\<close>

definition nextDelay :: "ReconnectConfig \<Rightarrow> real \<Rightarrow> real" where
  "nextDelay cfg d = min (d * multiplier cfg) (maxDelayMs cfg)"

text \<open>
  The head of the \<open>while\<close> loop, up to the call of the broker client's \<open>connect\<close>;
  \<open>a\<close> is \<open>attempt\<close> before the increment and \<open>orc\<close> is how the \<open>onReconnecting\<close>
  observer ends, if there is one.
\<close>

definition loop_head ::
  "ResilientConnectionOptions \<Rightarrow> outcome \<Rightarrow> nat \<Rightarrow> real \<Rightarrow> 'cb world \<Rightarrow> 'cb world"
where
  "loop_head opts orc a d w =
     (if isShuttingDown (mgr w) then emit LoopExited (w\<lparr>loop := Idle\<rparr>)
      else
        let w1 = w\<lparr>met := setConnectionState connecting (setReconnectAttempt (a + 1) (met w)),
                   mgr := (mgr w)\<lparr>state := connecting\<rparr>\<rparr>
        in if has_onReconnecting opts then
             (case orc of
                Throws e \<Rightarrow>
                  emit (LoopRejected e) (emit (OnReconnectingCalled (a + 1)) (w1\<lparr>loop := Idle\<rparr>))
              | Returns \<Rightarrow>
                  emit ConnectCalled
                    (emit (OnReconnectingCalled (a + 1)) (w1\<lparr>loop := AwaitConnect (a + 1) d\<rparr>)))
           else emit ConnectCalled (w1\<lparr>loop := AwaitConnect (a + 1) d\<rparr>))"

text \<open>An invocation of \<open>connectWithRetry\<close>, up to its first await.\<close>

definition connectWithRetry ::
  "ResilientConnectionOptions \<Rightarrow> outcome \<Rightarrow> 'cb world \<Rightarrow> 'cb world"
where
  "connectWithRetry opts orc w =
     loop_head opts orc 0 (initialDelayMs (reconnect opts)) (emit LoopEntered w)"

text \<open>
  The end of the \<open>catch\<close> block: give up when the retry cap is reached, sleep
  otherwise.
\<close>

definition retry_or_fail ::
  "ResilientConnectionOptions \<Rightarrow> nat \<Rightarrow> real \<Rightarrow> string \<Rightarrow> 'cb world \<Rightarrow> 'cb world"
where
  "retry_or_fail opts a d msg w =
     (if maxRetries (reconnect opts) \<noteq> Finite (- 1) \<and> number_ge a (maxRetries (reconnect opts)) then
        emit (LoopRejected (''Failed to connect after '' @ show_nat a @ '' attempts: '' @ msg))
          (w\<lparr>loop := Idle\<rparr>)
      else emit (SleepStarted d) (w\<lparr>loop := Sleeping a d\<rparr>))"

text \<open>
  The beginning of the \<open>catch\<close> block, entered with the message of what was thrown
  in the \<open>try\<close> block: a connection handle that is present is stripped of its
  listeners and closed (which is awaited), then cleared.
\<close>

definition on_attempt_failed ::
  "ResilientConnectionOptions \<Rightarrow> nat \<Rightarrow> real \<Rightarrow> string \<Rightarrow> 'cb world \<Rightarrow> 'cb world"
where
  "on_attempt_failed opts a d msg w =
     (case connection (mgr w) of
        Some c \<Rightarrow> w\<lparr>listeners := removeAll c (listeners w), loop := AwaitCleanup a d msg\<rparr>
      | None \<Rightarrow> retry_or_fail opts a d msg w)"

text \<open>
  The \<open>try\<close> block after the broker client's \<open>connect\<close> has resolved with the
  connection \<open>c\<close>; \<open>oc\<close> is how the \<open>onConnect\<close> observer ends, if there is one.
\<close>

definition on_connect_resolved ::
  "ResilientConnectionOptions \<Rightarrow> nat \<Rightarrow> ('cb effect list \<Rightarrow> 'cb \<Rightarrow> 'cb reaction) \<Rightarrow> nat \<Rightarrow> real
     \<Rightarrow> conn \<Rightarrow> outcome \<Rightarrow> 'cb world \<Rightarrow> 'cb world option"
where
  "on_connect_resolved opts fuel beh a d c oc w =
     (let w1 = w\<lparr>mgr := (mgr w)\<lparr>connection := Some c, state := connected\<rparr>,
                 listeners := c # listeners w,
                 met := recordConnect (met w)\<rparr>;
          w2 = (if has_onConnect opts then emit OnConnectCalled w1 else w1)
      in case (if has_onConnect opts then oc else Returns) of
           Throws e \<Rightarrow> Some (on_attempt_failed opts a d e w2)
         | Returns \<Rightarrow>
             (case notify fuel beh (reconnectSubscribers (mgr w2)) 0 (trace w2) of
                None \<Rightarrow> None
              | Some (xs, tr) \<Rightarrow>
                  Some (w2\<lparr>mgr := (mgr w2)\<lparr>reconnectSubscribers := xs\<rparr>,
                          trace := LoopConnected # tr, loop := Idle\<rparr>)))"

text \<open>\<open>scheduleReconnect\<close>; its \<open>catch\<close> only logs a rejected \<open>connectWithRetry\<close>.\<close>

definition scheduleReconnect ::
  "ResilientConnectionOptions \<Rightarrow> outcome \<Rightarrow> 'cb world \<Rightarrow> 'cb world"
where
  "scheduleReconnect opts orc w =
     (if isShuttingDown (mgr w) \<or> state (mgr w) = reconnecting then w
      else
        connectWithRetry opts orc
          (w\<lparr>mgr := (mgr w)\<lparr>state := reconnecting, connection := None\<rparr>,
             met := setConnectionState reconnecting (met w)\<rparr>))"

text \<open>
  The manager's listener of a connection's \<open>close\<close> event; \<open>od\<close> is how the
  \<open>onDisconnect\<close> observer ends, if there is one.
\<close>

definition on_connection_closed ::
  "ResilientConnectionOptions \<Rightarrow> outcome \<Rightarrow> outcome \<Rightarrow> 'cb world \<Rightarrow> 'cb world"
where
  "on_connection_closed opts od orc w =
     (let w1 = w\<lparr>met := recordDisconnect (met w)\<rparr>;
          w2 = (if has_onDisconnect opts then emit OnDisconnectCalled w1 else w1)
      in if has_onDisconnect opts \<and> od \<noteq> Returns then w2
         else if \<not> isShuttingDown (mgr w2) then scheduleReconnect opts orc w2
         else w2)"

text \<open>The end of \<open>close()\<close>, after the connection (if any) has been closed.\<close>

definition finish_close :: "'cb world \<Rightarrow> 'cb world" where
  "finish_close w =
     w\<lparr>mgr := (mgr w)\<lparr>connection := None, state := disconnected\<rparr>,
       met := setConnectionState disconnected (met w)\<rparr>"

text \<open>
  What happens to a manager: the promises it awaits settle, a connection emits
  \<open>close\<close>, and its owner or a component calls \<open>close()\<close>, \<open>onReconnect\<close> or an
  \<open>unsubscribe\<close> function. An event that cannot happen in a state (a promise that
  nobody awaits, a \<open>close\<close> from a connection without listeners) leaves it as it is.
  The manager object, and with it \<open>close()\<close> and \<open>onReconnect\<close>, is handed out only
  when the initial connection is made; the model accepts these calls in every state, so
  what holds of every run of the model holds of the runs a caller can produce.
\<close>

datatype 'cb event =
    ConnectResolved conn outcome
  | ConnectRejected string
  | CleanupSettled
  | SleepElapsed outcome
  | ConnectionClosed conn outcome outcome
  | CloseCalled
  | CloseSettled
  | OnReconnectCalled 'cb
  | UnsubscribeCalled 'cb

fun step ::
  "ResilientConnectionOptions \<Rightarrow> nat \<Rightarrow> ('cb effect list \<Rightarrow> 'cb \<Rightarrow> 'cb reaction)
     \<Rightarrow> 'cb world \<Rightarrow> 'cb event \<Rightarrow> 'cb world option"
where
  "step opts fuel beh w (ConnectResolved c oc) =
     (case loop w of
        AwaitConnect a d \<Rightarrow> on_connect_resolved opts fuel beh a d c oc w
      | _ \<Rightarrow> Some w)"
| "step opts fuel beh w (ConnectRejected msg) =
     (case loop w of
        AwaitConnect a d \<Rightarrow> Some (on_attempt_failed opts a d msg w)
      | _ \<Rightarrow> Some w)"
| "step opts fuel beh w CleanupSettled =
     (case loop w of
        AwaitCleanup a d msg \<Rightarrow>
          Some (retry_or_fail opts a d msg (w\<lparr>mgr := (mgr w)\<lparr>connection := None\<rparr>\<rparr>))
      | _ \<Rightarrow> Some w)"
| "step opts fuel beh w (SleepElapsed orc) =
     (case loop w of
        Sleeping a d \<Rightarrow> Some (loop_head opts orc a (nextDelay (reconnect opts) d) w)
      | _ \<Rightarrow> Some w)"
| "step opts fuel beh w (ConnectionClosed c od orc) =
     (if c \<in> set (listeners w) then
        Some (on_connection_closed opts od orc (w\<lparr>listeners := removeAll c (listeners w)\<rparr>))
      else Some w)"
| "step opts fuel beh w CloseCalled =
     (let w1 = w\<lparr>mgr := (mgr w)\<lparr>isShuttingDown := True\<rparr>\<rparr>
      in case connection (mgr w1) of
           Some c \<Rightarrow> Some (w1\<lparr>closing := closing w1 + 1\<rparr>)
         | None \<Rightarrow> Some (finish_close w1))"
| "step opts fuel beh w CloseSettled =
     (if closing w > 0 then Some (finish_close (w\<lparr>closing := closing w - 1\<rparr>)) else Some w)"
| "step opts fuel beh w (OnReconnectCalled cb) = Some (w\<lparr>mgr := onReconnect cb (mgr w)\<rparr>)"
| "step opts fuel beh w (UnsubscribeCalled cb) = Some (w\<lparr>mgr := unsubscribe cb (mgr w)\<rparr>)"

fun run ::
  "ResilientConnectionOptions \<Rightarrow> nat \<Rightarrow> ('cb effect list \<Rightarrow> 'cb \<Rightarrow> 'cb reaction)
     \<Rightarrow> 'cb event list \<Rightarrow> 'cb world \<Rightarrow> 'cb world option"
where
  "run opts fuel beh [] w = Some w"
| "run opts fuel beh (e # es) w =
     (case step opts fuel beh w e of
        None \<Rightarrow> None
      | Some w1 \<Rightarrow> run opts fuel beh es w1)"

text \<open>
  \<open>createConnection(options)\<close> up to the first await of its initial
  \<open>connectWithRetry\<close>; it resolves when that invocation ends with \<open>LoopConnected\<close> or
  \<open>LoopExited\<close> and rejects when it ends with \<open>LoopRejected\<close>.
\<close>

definition manager_initial :: "'cb ConnectionManagerState" where
  "manager_initial =
     \<lparr>connection = None, state = disconnected, isShuttingDown = False,
      reconnectSubscribers = []\<rparr>"

definition createConnection :: "ResilientConnectionOptions \<Rightarrow> outcome \<Rightarrow> 'cb world" where
  "createConnection opts orc =
     connectWithRetry opts orc
       \<lparr>mgr = manager_initial, met = metrics_initial, loop = Idle, closing = 0,
        listeners = [], trace = []\<rparr>"

subsection \<open>Publisher (publisher.ts)\<close>

record PublisherOptions =
  exchange :: string
  exchangeType :: string
  durable :: bool
  deliveryMode :: nat
  contentType :: string

text \<open>\<open>DEFAULT_OPTIONS\<close> of publisher.ts, merged under a caller's options.\<close>

definition publisher_defaults :: "string \<Rightarrow> PublisherOptions" where
  "publisher_defaults ex =
     \<lparr>exchange = ex, exchangeType = ''topic'', durable = True, deliveryMode = 2,
      contentType = ''application/json''\<rparr>"

record PublisherState =
  pub_channel :: "chan option"
  isReady :: bool
  messagesPublished :: nat
  messagesPublishFailed :: nat
  lastPublishAt :: "nat option"

text \<open>
  The content handed to \<open>publish\<close>: a string is sent as it is, anything else as its
  JSON rendering (the encoder is outside the repository, so the rendering is carried).
  A value without a JSON rendering makes \<open>JSON.stringify\<close> throw, or return
  \<open>undefined\<close> so that \<open>Buffer.from\<close> throws; \<open>NotEncodable\<close> carries the message
  of that error.
\<close>

datatype content = StringContent string | JsonContent string | NotEncodable string

fun buffer_of :: "content \<Rightarrow> string + string" where
  "buffer_of (StringContent s) = Inr s"
| "buffer_of (JsonContent j) = Inr j"
| "buffer_of (NotEncodable e) = Inl e"

text \<open>A broker-level publish call, as issued on a confirm channel.\<close>

record publish_call =
  pc_channel :: chan
  pc_exchange :: string
  pc_routingKey :: string
  pc_body :: string
  pc_contentType :: string
  pc_deliveryMode :: nat
  pc_persistent :: bool

text \<open>
  What the broker-level publish does: it confirms, it reports a failure through the
  confirmation callback, or the call itself throws.
\<close>

datatype publish_reply = Confirmed | ConfirmFailed string | PublishThrows string

text \<open>
  How a call of \<open>publish\<close> ends. \<open>publish\<close> is not an \<open>async\<close> function: it returns
  a promise, which resolves or is rejected, or it throws before it has made one.
\<close>

datatype publish_result = Resolves | Rejects string | ThrowsSync string

text \<open>
  \<open>publish\<close>: the result, the new state and the broker-level calls issued. \<open>now\<close> is
  the clock read on a confirmation.
\<close>

definition publish ::
  "PublisherOptions \<Rightarrow> publish_reply \<Rightarrow> nat \<Rightarrow> PublisherState \<Rightarrow> string \<Rightarrow> content
     \<Rightarrow> publish_result \<times> PublisherState \<times> publish_call list"
where
  "publish opts reply now s rk c =
     (case pub_channel s of
        None \<Rightarrow>
          (Rejects ''Publisher not ready'',
           s\<lparr>messagesPublishFailed := messagesPublishFailed s + 1\<rparr>, [])
      | Some ch \<Rightarrow>
          if \<not> isReady s then
            (Rejects ''Publisher not ready'',
             s\<lparr>messagesPublishFailed := messagesPublishFailed s + 1\<rparr>, [])
          else
            (case buffer_of c of
               Inl e \<Rightarrow> (ThrowsSync e, s, [])
             | Inr buffer \<Rightarrow>
                 let call = \<lparr>pc_channel = ch, pc_exchange = exchange opts,
                             pc_routingKey = rk, pc_body = buffer,
                             pc_contentType = contentType opts,
                             pc_deliveryMode = deliveryMode opts,
                             pc_persistent = (deliveryMode opts = 2)\<rparr>
                 in (case reply of
                       Confirmed \<Rightarrow>
                         (Resolves,
                          s\<lparr>messagesPublished := messagesPublished s + 1,
                            lastPublishAt := Some now\<rparr>, [call])
                     | ConfirmFailed e \<Rightarrow>
                         (Rejects e, s\<lparr>messagesPublishFailed := messagesPublishFailed s + 1\<rparr>,
                          [call])
                     | PublishThrows e \<Rightarrow>
                         (Rejects e, s\<lparr>messagesPublishFailed := messagesPublishFailed s + 1\<rparr>,
                          [call]))))"

datatype log_line = LogInfo string | LogWarn string | LogError string

subsection \<open>Messages and channel calls\<close>

record message =
  routingKey :: string
  redelivered :: bool
  body :: string
  deliveryTag :: nat

text \<open>
  Calls issued on a channel: a confirmed publish, \<open>ack(msg)\<close> and
  \<open>nack(msg, multiple, requeue)\<close>.
\<close>

datatype chan_call =
    PublishCall publish_call
  | AckCall chan message
  | NackCall chan message bool bool

subsection \<open>Bridge (bridge.ts)\<close>

record BridgeOptions =
  exchanges :: "string list"
  b_prefetch :: nat
  queuePrefix :: string
  b_deliveryMode :: nat
  logEveryNMessages :: nat

text \<open>\<open>DEFAULT_OPTIONS\<close> of bridge.ts.\<close>

definition bridge_defaults :: "string list \<Rightarrow> BridgeOptions" where
  "bridge_defaults exs =
     \<lparr>exchanges = exs, b_prefetch = 50, queuePrefix = ''bridge_'', b_deliveryMode = 2,
      logEveryNMessages = 100\<rparr>"

record BridgeMetrics =
  messagesForwarded :: nat
  messagesFailed :: nat
  lastMessageAt :: "int option"

record BridgeInternalState =
  consumerChannel :: "chan option"
  producerChannel :: "chan option"
  isRunning :: bool
  consumerTags :: "string list"
  metrics :: BridgeMetrics
  errorLogCount :: nat
  lastErrorLogReset :: int

definition ERROR_LOG_LIMIT :: nat where
  "ERROR_LOG_LIMIT = 10"

definition ERROR_LOG_WINDOW_MS :: int where
  "ERROR_LOG_WINDOW_MS = 5000"

text \<open>
  \<open>shouldLogError\<close>, with the clock reading \<open>now\<close>: whether to log, the new state,
  and the summary line written when the window has rolled over.
\<close>

definition shouldLogError ::
  "int \<Rightarrow> BridgeInternalState \<Rightarrow> bool \<times> BridgeInternalState \<times> log_line list"
where
  "shouldLogError now s =
     (let (s1, logs) =
        (if now - lastErrorLogReset s > ERROR_LOG_WINDOW_MS then
           (s\<lparr>errorLogCount := 0, lastErrorLogReset := now\<rparr>,
            if errorLogCount s > ERROR_LOG_LIMIT then
              [LogWarn (''[bridge] Suppressed '' @ show_nat (errorLogCount s - ERROR_LOG_LIMIT)
                 @ '' error logs in last '' @ show_nat (nat ERROR_LOG_WINDOW_MS) @ ''ms'')]
            else [])
         else (s, []));
        s2 = s1\<lparr>errorLogCount := errorLogCount s1 + 1\<rparr>
      in (errorLogCount s2 \<le> ERROR_LOG_LIMIT, s2, logs))"

text \<open>
  A run of errors: \<open>shouldLogError\<close> called once per clock reading of the list, in
  order. It returns the answers, the final state and the summary lines written.
\<close>

fun burst ::
  "int list \<Rightarrow> BridgeInternalState \<Rightarrow> bool list \<times> BridgeInternalState \<times> log_line list"
where
  "burst [] s = ([], s, [])"
| "burst (t # ts) s =
     (case shouldLogError t s of
        (b, s1, l1) \<Rightarrow>
          (case burst ts s1 of (bs, s2, l2) \<Rightarrow> (b # bs, s2, l1 @ l2)))"

text \<open>
  \<open>logForwarded\<close>: counts the message, stamps the time, and writes a progress line
  every \<open>logEveryNMessages\<close> messages.
\<close>

definition logForwarded ::
  "BridgeOptions \<Rightarrow> int \<Rightarrow> string \<Rightarrow> string \<Rightarrow> BridgeInternalState
     \<Rightarrow> BridgeInternalState \<times> log_line list"
where
  "logForwarded opts now ex rk s =
     (let n = messagesForwarded (metrics s) + 1;
          s1 = s\<lparr>metrics := (metrics s)\<lparr>messagesForwarded := n, lastMessageAt := Some now\<rparr>\<rparr>
      in (s1,
          if logEveryNMessages opts > 0 \<and> n mod logEveryNMessages opts = 0 then
            [LogInfo (''[bridge] Forwarded '' @ show_nat n @ '' messages, last: '' @ ex
               @ '' -> '' @ rk)]
          else []))"

text \<open>
  The environment of one \<open>handleMessage\<close> run of the bridge: how the confirmed publish
  on the target ends, what \<open>ack\<close> and \<open>nack\<close> on the source channel do, and the
  clock readings (\<open>new Date()\<close> in \<open>logForwarded\<close>, \<open>Date.now()\<close> in the first and
  in the second call of \<open>shouldLogError\<close>).
\<close>

record bridge_env =
  forward_reply :: outcome
  b_ack_result :: outcome
  b_nack_result :: outcome
  t_forwarded :: int
  t_error1 :: int
  t_error2 :: int

text \<open>The \<open>catch\<close> block of the bridge's \<open>handleMessage\<close>.\<close>

definition bridge_on_failure ::
  "bridge_env \<Rightarrow> chan \<Rightarrow> message \<Rightarrow> string \<Rightarrow> string \<Rightarrow> BridgeInternalState
     \<Rightarrow> BridgeInternalState \<times> chan_call list \<times> log_line list"
where
  "bridge_on_failure env cc msg ex err s =
     (let s1 = s\<lparr>metrics := (metrics s)\<lparr>messagesFailed := messagesFailed (metrics s) + 1\<rparr>\<rparr>;
          isChannelClosed = (str_includes err ''Channel closed'' \<or> str_includes err ''channel closed'')
      in if isChannelClosed then
           (case shouldLogError (t_error1 env) s1 of
              (b, s2, l) \<Rightarrow>
                (s2, [],
                 l @ (if b then
                        [LogWarn ''[bridge] Channel closed, messages will be redelivered on reconnect'']
                      else [])))
         else
           (case shouldLogError (t_error1 env) s1 of
              (b, s2, l) \<Rightarrow>
                (let l1 = l @ (if b then
                                 [LogError (''[bridge] Forward error ('' @ ex @ '' -> ''
                                    @ routingKey msg @ ''): '' @ err)]
                               else []);
                     requeue = (\<not> redelivered msg);
                     call = NackCall cc msg False requeue
                 in (case b_nack_result env of
                       Throws e \<Rightarrow> (s2, [call], l1)
                     | Returns \<Rightarrow>
                         if \<not> requeue then
                           (case shouldLogError (t_error2 env) s2 of
                              (b2, s3, l2) \<Rightarrow>
                                (s3, [call],
                                 l1 @ l2 @ (if b2 then
                                    [LogError (''[bridge] Message permanently failed: '' @ ex
                                       @ '' -> '' @ routingKey msg)]
                                  else [])))
                         else (s2, [call], l1)))))"

text \<open>
  The bridge's \<open>handleMessage(msg, exchange)\<close>: the new state, the channel calls
  issued in order, and the log lines. It never rejects.
\<close>

definition bridge_handleMessage ::
  "BridgeOptions \<Rightarrow> bridge_env \<Rightarrow> message option \<Rightarrow> string \<Rightarrow> BridgeInternalState
     \<Rightarrow> BridgeInternalState \<times> chan_call list \<times> log_line list"
where
  "bridge_handleMessage opts env m ex s =
     (case m of
        None \<Rightarrow> (s, [], [])
      | Some msg \<Rightarrow>
          (case (consumerChannel s, producerChannel s) of
             (Some cc, Some pc) \<Rightarrow>
               (let pub = PublishCall
                      \<lparr>pc_channel = pc, pc_exchange = ex, pc_routingKey = routingKey msg,
                       pc_body = body msg, pc_contentType = ''application/json'',
                       pc_deliveryMode = b_deliveryMode opts,
                       pc_persistent = (b_deliveryMode opts = 2)\<rparr>
                in (case forward_reply env of
                      Throws err \<Rightarrow>
                        (case bridge_on_failure env cc msg ex err s of
                           (s1, calls, logs) \<Rightarrow> (s1, pub # calls, logs))
                    | Returns \<Rightarrow>
                        (case logForwarded opts (t_forwarded env) ex (routingKey msg) s of
                           (s1, l1) \<Rightarrow>
                             (case b_ack_result env of
                                Returns \<Rightarrow> (s1, [pub, AckCall cc msg], l1)
                              | Throws err \<Rightarrow>
                                  (case bridge_on_failure env cc msg ex err s1 of
                                     (s2, calls, logs) \<Rightarrow>
                                       (s2, [pub, AckCall cc msg] @ calls, l1 @ logs))))))
           | _ \<Rightarrow> (s, [], [])))"

text \<open>
  The object \<open>createBridge\<close> returns, as its property names with the operations
  they are bound to, and the members the \<open>Bridge\<close> interface of types.ts declares.
\<close>

datatype bridge_operation = BrStart | BrStop | BrIsRunning | BrGetMetrics | BrGetState

definition Bridge_interface :: "string list" where
  "Bridge_interface = [''start'', ''stop'', ''close'', ''isRunning'', ''getMetrics'', ''getState'']"

record Bridge =
  bridge_options :: BridgeOptions
  bridge_state :: BridgeInternalState
  bridge_object :: "(string \<times> bridge_operation) list"

text \<open>
  \<open>createBridge(options)\<close>, called at clock reading \<open>now\<close> with the states of the
  source and of the target manager that \<open>options\<close> refers to. It returns the bridge
  and the two manager states as it leaves them.
\<close>

definition bridge_initial :: "int \<Rightarrow> BridgeInternalState" where
  "bridge_initial now =
     \<lparr>consumerChannel = None, producerChannel = None, isRunning = False,
      consumerTags = [],
      metrics = \<lparr>messagesForwarded = 0, messagesFailed = 0, lastMessageAt = None\<rparr>,
      errorLogCount = 0, lastErrorLogReset = now\<rparr>"

definition createBridge ::
  "BridgeOptions \<Rightarrow> int \<Rightarrow> 'cb ConnectionManagerState \<times> 'cb ConnectionManagerState
     \<Rightarrow> Bridge \<times> 'cb ConnectionManagerState \<times> 'cb ConnectionManagerState"
where
  "createBridge options now mgrs =
     (\<lparr>bridge_options = options,
       bridge_state = bridge_initial now,
       bridge_object =
         [(''start'', BrStart), (''stop'', BrStop), (''isRunning'', BrIsRunning),
          (''getMetrics'', BrGetMetrics), (''getState'', BrGetState)]\<rparr>,
      fst mgrs, snd mgrs)"

text \<open>Reading a property of the returned object: \<open>None\<close> is \<open>undefined\<close>.\<close>

definition bridge_property :: "Bridge \<Rightarrow> string \<Rightarrow> bridge_operation option" where
  "bridge_property b name = map_of (bridge_object b) name"

subsection \<open>Publisher: setup and construction\<close>

record publisher_setup_env =
  p_channel_open :: channel_open
  p_assertExchange :: outcome

definition publisher_initial :: PublisherState where
  "publisher_initial =
     \<lparr>pub_channel = None, isReady = False, messagesPublished = 0,
      messagesPublishFailed = 0, lastPublishAt = None\<rparr>"

text \<open>\<open>setup\<close> of the publisher: \<open>Inl\<close> is the error it throws.\<close>

definition publisher_setup ::
  "publisher_setup_env \<Rightarrow> 'cb ConnectionManagerState \<Rightarrow> PublisherState
     \<Rightarrow> (string + unit) \<times> PublisherState"
where
  "publisher_setup env m s =
     (case createConfirmChannel m (p_channel_open env) of
        None \<Rightarrow> (Inl ''Failed to create confirm channel'', s\<lparr>pub_channel := None\<rparr>)
      | Some ch \<Rightarrow>
          (case p_assertExchange env of
             Throws e \<Rightarrow> (Inl e, s\<lparr>pub_channel := Some ch\<rparr>)
           | Returns \<Rightarrow> (Inr (), s\<lparr>pub_channel := Some ch, isReady := True\<rparr>)))"

text \<open>The publisher's handler of its channel's \<open>close\<close> event.\<close>

definition publisher_on_channel_close :: "PublisherState \<Rightarrow> PublisherState" where
  "publisher_on_channel_close s = s\<lparr>isReady := False, pub_channel := None\<rparr>"

text \<open>
  \<open>createPublisher(connection, options)\<close>: the publisher's state (or the error), and
  the manager state as the construction leaves it.
\<close>

definition createPublisher ::
  "publisher_setup_env \<Rightarrow> PublisherOptions \<Rightarrow> 'cb ConnectionManagerState
     \<Rightarrow> (string + PublisherState) \<times> 'cb ConnectionManagerState"
where
  "createPublisher env opts m =
     (case publisher_setup env m publisher_initial of
        (Inl e, s) \<Rightarrow> (Inl e, m)
      | (Inr u, s) \<Rightarrow> (Inr s, m))"

subsection \<open>Consumer (consumer.ts)\<close>

record ConsumerOptions =
  queue :: string
  c_exchange :: "string option"
  c_routingKey :: string
  c_durable :: bool
  c_prefetch :: nat
  onError_given :: bool

record 'cb ConsumerState =
  con_channel :: "chan option"
  consumerTag :: "string option"
  isActive :: bool
  wasActive :: bool
  messagesConsumed :: nat
  messagesConsumeFailed :: nat
  lastConsumeAt :: "nat option"
  unsubscribeReconnect :: "'cb option"

definition consumer_initial :: "'cb ConsumerState" where
  "consumer_initial =
     \<lparr>con_channel = None, consumerTag = None, isActive = False, wasActive = False,
      messagesConsumed = 0, messagesConsumeFailed = 0, lastConsumeAt = None,
      unsubscribeReconnect = None\<rparr>"

text \<open>The consumer's handler of its channel's \<open>close\<close> event.\<close>

definition consumer_on_channel_close :: "'cb ConsumerState \<Rightarrow> 'cb ConsumerState" where
  "consumer_on_channel_close s =
     s\<lparr>wasActive := isActive s, isActive := False, con_channel := None, consumerTag := None\<rparr>"

text \<open>
  The environment of one run of \<open>setup\<close>: whether closing the stale channel makes it
  emit \<open>close\<close> to the consumer's handler (the result of that \<open>close()\<close> call is
  ignored by the source either way), and how the broker calls end.
\<close>

record consumer_setup_env =
  stale_emits_close :: bool
  c_channel_open :: channel_open
  c_prefetch_result :: outcome
  c_assertQueue :: outcome
  c_assertExchange :: outcome
  c_bindQueue :: outcome

definition consumer_setup ::
  "consumer_setup_env \<Rightarrow> ConsumerOptions \<Rightarrow> 'cb ConnectionManagerState \<Rightarrow> 'cb ConsumerState
     \<Rightarrow> (string + unit) \<times> 'cb ConsumerState"
where
  "consumer_setup env opts m s =
     (let s1 = (case con_channel s of
                  None \<Rightarrow> s
                | Some old \<Rightarrow>
                    (if stale_emits_close env then consumer_on_channel_close s else s)
                      \<lparr>con_channel := None\<rparr>)
      in case createChannel m (c_channel_open env) of
           None \<Rightarrow> (Inl ''Failed to create channel'', s1\<lparr>con_channel := None\<rparr>)
         | Some ch \<Rightarrow>
             (let s2 = s1\<lparr>con_channel := Some ch\<rparr>
              in case c_prefetch_result env of
                   Throws e \<Rightarrow> (Inl e, s2)
                 | Returns \<Rightarrow>
                     (case c_assertQueue env of
                        Throws e \<Rightarrow> (Inl e, s2)
                      | Returns \<Rightarrow>
                          (case c_exchange opts of
                             None \<Rightarrow> (Inr (), s2)
                           | Some ex \<Rightarrow>
                               (case c_assertExchange env of
                                  Throws e \<Rightarrow> (Inl e, s2)
                                | Returns \<Rightarrow>
                                    (case c_bindQueue env of
                                       Throws e \<Rightarrow> (Inl e, s2)
                                     | Returns \<Rightarrow> (Inr (), s2)))))))"

datatype consume_reply = Consuming string | ConsumeFails string

text \<open>\<open>startConsuming\<close>.\<close>

definition startConsuming ::
  "consume_reply \<Rightarrow> 'cb ConsumerState \<Rightarrow> (string + unit) \<times> 'cb ConsumerState"
where
  "startConsuming r s =
     (case con_channel s of
        None \<Rightarrow> (Inl ''No channel available'', s)
      | Some ch \<Rightarrow>
          (case r of
             ConsumeFails e \<Rightarrow> (Inl e, s)
           | Consuming tag \<Rightarrow>
               (Inr (), s\<lparr>consumerTag := Some tag, isActive := True, wasActive := True\<rparr>)))"

text \<open>
  \<open>handleReconnect\<close>, the body of the consumer's reconnect subscriber: it never
  rejects (a failure is logged), so only the new state is returned.
\<close>

definition handleReconnect ::
  "consumer_setup_env \<Rightarrow> consume_reply \<Rightarrow> ConsumerOptions \<Rightarrow> 'cb ConnectionManagerState
     \<Rightarrow> 'cb ConsumerState \<Rightarrow> 'cb ConsumerState"
where
  "handleReconnect env r opts m s =
     (case consumer_setup env opts m s of
        (Inl e, s1) \<Rightarrow> s1
      | (Inr u, s1) \<Rightarrow> if wasActive s1 then snd (startConsuming r s1) else s1)"

text \<open>
  \<open>createConsumer(connection, options)\<close>; \<open>cb\<close> is the identity of the closure it
  registers, whose body is \<open>handleReconnect\<close>.
\<close>

definition createConsumer ::
  "consumer_setup_env \<Rightarrow> ConsumerOptions \<Rightarrow> 'cb \<Rightarrow> 'cb ConnectionManagerState
     \<Rightarrow> (string + 'cb ConsumerState) \<times> 'cb ConnectionManagerState"
where
  "createConsumer env opts cb m =
     (case consumer_setup env opts m consumer_initial of
        (Inl e, s) \<Rightarrow> (Inl e, m)
      | (Inr u, s) \<Rightarrow> (Inr (s\<lparr>unsubscribeReconnect := Some cb\<rparr>), onReconnect cb m))"

text \<open>
  Per-message handling. The environment of one run: how the caller's handler and its
  error callback end, what \<open>ack\<close> and \<open>nack\<close> do, and the clock.
\<close>

record consumer_env =
  handler_result :: outcome
  onError_result :: outcome
  c_ack_result :: outcome
  c_nack_result :: outcome
  t_consumed :: nat

datatype consumer_effect =
    ChannelCall chan_call
  | OnErrorCall string
  | ErrorLogged string

text \<open>
  The message of the \<open>TypeError\<close> that \<open>state.channel.ack(msg)\<close> throws when the
  channel handle has been cleared while the handler ran.
\<close>

definition null_channel_error :: string where
  "null_channel_error = ''Cannot read properties of null (reading 'ack')''"

text \<open>The \<open>catch\<close> block of the consumer's \<open>handleMessage\<close>, entered with error \<open>err\<close>.\<close>

definition consumer_on_failure ::
  "ConsumerOptions \<Rightarrow> consumer_env \<Rightarrow> message \<Rightarrow> string \<Rightarrow> 'cb ConsumerState
     \<Rightarrow> (string + unit) \<times> 'cb ConsumerState \<times> consumer_effect list"
where
  "consumer_on_failure opts env msg err s =
     (let s1 = s\<lparr>messagesConsumeFailed := messagesConsumeFailed s + 1\<rparr>;
          nack = (case con_channel s1 of
                    None \<Rightarrow> []
                  | Some ch \<Rightarrow> [ChannelCall (NackCall ch msg False (\<not> redelivered msg))])
      in if onError_given opts then
           (case onError_result env of
              Throws e \<Rightarrow> (Inl e, s1, [OnErrorCall err])
            | Returns \<Rightarrow> (Inr (), s1, OnErrorCall err # nack))
         else (Inr (), s1, ErrorLogged err # nack))"

text \<open>
  The part of \<open>handleMessage\<close> that runs once the caller's handler has settled, in
  the consumer state \<open>s\<close> of that moment (the channel may have been closed while the
  handler ran).
\<close>

definition consumer_settle ::
  "ConsumerOptions \<Rightarrow> consumer_env \<Rightarrow> message \<Rightarrow> 'cb ConsumerState
     \<Rightarrow> (string + unit) \<times> 'cb ConsumerState \<times> consumer_effect list"
where
  "consumer_settle opts env msg s =
     (case handler_result env of
        Throws err \<Rightarrow> consumer_on_failure opts env msg err s
      | Returns \<Rightarrow>
          (case con_channel s of
             None \<Rightarrow> consumer_on_failure opts env msg null_channel_error s
           | Some ch \<Rightarrow>
               (case c_ack_result env of
                  Throws err \<Rightarrow>
                    (case consumer_on_failure opts env msg err s of
                       (r, s1, effs) \<Rightarrow> (r, s1, ChannelCall (AckCall ch msg) # effs))
                | Returns \<Rightarrow>
                    (Inr (),
                     s\<lparr>messagesConsumed := messagesConsumed s + 1,
                       lastConsumeAt := Some (t_consumed env)\<rparr>,
                     [ChannelCall (AckCall ch msg)]))))"

text \<open>
  \<open>handleMessage(msg)\<close> when nothing else touches the consumer while the handler
  runs: the guard, then the settled part in the same state.
\<close>

definition consumer_handleMessage ::
  "ConsumerOptions \<Rightarrow> consumer_env \<Rightarrow> message option \<Rightarrow> 'cb ConsumerState
     \<Rightarrow> (string + unit) \<times> 'cb ConsumerState \<times> consumer_effect list"
where
  "consumer_handleMessage opts env m s =
     (case m of
        None \<Rightarrow> (Inr (), s, [])
      | Some msg \<Rightarrow>
          (case con_channel s of
             None \<Rightarrow> (Inr (), s, [])
           | Some ch \<Rightarrow> consumer_settle opts env msg s))"

subsection \<open>Connection manager: scripts of events and invariants\<close>

text \<open>
  An event in which no observer of the manager throws where the source expects it to
  return: the \<open>onConnect\<close> observer, when there is one, returns.
\<close>

definition observer_returns :: "ResilientConnectionOptions \<Rightarrow> 'cb event \<Rightarrow> bool" where
  "observer_returns opts e =
     (case e of ConnectResolved c oc \<Rightarrow> \<not> has_onConnect opts \<or> oc = Returns | _ \<Rightarrow> True)"

text \<open>
  The connection handle is present exactly when the state is \<open>connected\<close>; while a
  \<open>connectWithRetry\<close> waits for the broker or sleeps, there is no handle and the
  state is not \<open>connected\<close>.
\<close>

definition handle_inv :: "'cb world \<Rightarrow> bool" where
  "handle_inv w =
     (case loop w of
        Idle \<Rightarrow> (connection (mgr w) \<noteq> None) = (state (mgr w) = connected)
      | AwaitConnect a d \<Rightarrow> connection (mgr w) = None \<and> state (mgr w) \<noteq> connected
      | Sleeping a d \<Rightarrow> connection (mgr w) = None \<and> state (mgr w) \<noteq> connected
      | AwaitCleanup a d m \<Rightarrow> False)"

text \<open>
  At most one connection carries the manager's listeners, and none does while a
  \<open>connectWithRetry\<close> is suspended. So the \<open>close\<close> listener, the only caller of
  \<open>scheduleReconnect\<close>, never starts a \<open>connectWithRetry\<close> while another one is
  suspended, and one continuation is enough to model them.
\<close>

definition single_loop :: "'cb world \<Rightarrow> bool" where
  "single_loop w = (length (listeners w) \<le> 1 \<and> (loop w \<noteq> Idle \<longrightarrow> listeners w = []))"

text \<open>The state is \<open>connected\<close> only after \<open>recordConnect\<close> has counted a connection.\<close>

definition counted_inv :: "'cb world \<Rightarrow> bool" where
  "counted_inv w = (state (mgr w) = connected \<longrightarrow> 0 < connectionsEstablished (met w))"

text \<open>
  The broker is unreachable throughout: the attempt under way is rejected with the
  message \<open>m\<close>, and so is every later attempt of the list, each given by how the
  \<open>onReconnecting\<close> observer ends at its start and by the message of its rejection;
  every sleep in between runs out.
\<close>

fun all_attempts_fail :: "string \<Rightarrow> (outcome \<times> string) list \<Rightarrow> 'cb event list" where
  "all_attempts_fail m [] = [ConnectRejected m]"
| "all_attempts_fail m ((orc, m') # later) =
     ConnectRejected m # SleepElapsed orc # all_attempts_fail m' later"

text \<open>
  The delays slept, read off a trace: one list per invocation of \<open>connectWithRetry\<close>
  (the latest invocation first), each in the order in which the delays were slept.
\<close>

fun delays_by_loop :: "'cb effect list \<Rightarrow> real list list" where
  "delays_by_loop [] = []"
| "delays_by_loop (LoopEntered # tr) = [] # delays_by_loop tr"
| "delays_by_loop (SleepStarted d # tr) =
     (case delays_by_loop tr of [] \<Rightarrow> [[d]] | r # rs \<Rightarrow> (r @ [d]) # rs)"
| "delays_by_loop (e # tr) = delays_by_loop tr"

text \<open>
  The delay after \<open>k\<close> updates \<open>delay = Math.min(delay * multiplier, maxDelayMs)\<close>
  of the initial delay, and the first \<open>n\<close> of these delays.
\<close>

definition delay_at :: "ReconnectConfig \<Rightarrow> nat \<Rightarrow> real" where
  "delay_at cfg k = (nextDelay cfg ^^ k) (initialDelayMs cfg)"

definition backoff :: "ReconnectConfig \<Rightarrow> nat \<Rightarrow> real list" where
  "backoff cfg n = map (delay_at cfg) [0..<n]"

text \<open>
  How the local variable \<open>delay\<close> of a suspended \<open>connectWithRetry\<close> relates to the
  delays it has slept so far: before a sleep it holds the next delay, during a sleep the
  delay being slept.
\<close>

definition current_delay_ok :: "ReconnectConfig \<Rightarrow> real list list \<Rightarrow> real \<Rightarrow> bool" where
  "current_delay_ok cfg runs d =
     (case runs of [] \<Rightarrow> False | r # rs \<Rightarrow> d = delay_at cfg (length r))"

definition slept_delay_ok :: "ReconnectConfig \<Rightarrow> real list list \<Rightarrow> real \<Rightarrow> bool" where
  "slept_delay_ok cfg runs d =
     (case runs of [] \<Rightarrow> False | r # rs \<Rightarrow> r \<noteq> [] \<and> d = delay_at cfg (length r - 1))"

definition backoff_inv :: "ReconnectConfig \<Rightarrow> 'cb world \<Rightarrow> bool" where
  "backoff_inv cfg w =
     ((\<forall>ds \<in> set (delays_by_loop (trace w)). ds = backoff cfg (length ds)) \<and>
      (case loop w of
         Idle \<Rightarrow> True
       | AwaitConnect a d \<Rightarrow> current_delay_ok cfg (delays_by_loop (trace w)) d
       | AwaitCleanup a d m \<Rightarrow> current_delay_ok cfg (delays_by_loop (trace w)) d
       | Sleeping a d \<Rightarrow> slept_delay_ok cfg (delays_by_loop (trace w)) d))"






text \<open>
  The callbacks notified, read off a trace: \<open>pass_of\<close> gives those called by the
  notification loop that the trace ends with, in the order of the calls, and
  \<open>notified_by_pass\<close> gives one such list per successful connection of the manager
  (per \<open>LoopConnected\<close>), the latest first.
\<close>

fun pass_of :: "'cb effect list \<Rightarrow> 'cb list" where
  "pass_of (Notified c # tr) = pass_of tr @ [c]"
| "pass_of (SubscriberErrorLogged c # tr) = pass_of tr"
| "pass_of tr = []"

fun notified_by_pass :: "'cb effect list \<Rightarrow> 'cb list list" where
  "notified_by_pass [] = []"
| "notified_by_pass (LoopConnected # tr) = pass_of tr # notified_by_pass tr"
| "notified_by_pass (e # tr) = notified_by_pass tr"


text \<open>
  A step of the manager that leaves the subscriber set alone and adds no
  notification and no successful connection to the trace.
\<close>

definition silent_step :: "'cb world \<Rightarrow> 'cb world \<Rightarrow> bool" where
  "silent_step w w' =
     (reconnectSubscribers (mgr w') = reconnectSubscribers (mgr w) \<and>
      notified_by_pass (trace w') = notified_by_pass (trace w) \<and>
      (pass_of (trace w) = [] \<longrightarrow> pass_of (trace w') = []))"


text \<open>
  The trace \<open>tr'\<close> extends \<open>tr\<close> by notification loops that all satisfy \<open>Q\<close>.
\<close>

definition passes_ext :: "('cb list \<Rightarrow> bool) \<Rightarrow> 'cb effect list \<Rightarrow> 'cb effect list \<Rightarrow> bool" where
  "passes_ext Q tr tr' =
     (\<exists>new. notified_by_pass tr' = new @ notified_by_pass tr \<and> (\<forall>p \<in> set new. Q p))"





subsection \<open>Example inputs\<close>

definition ex_options_large_initial :: ResilientConnectionOptions where
  "ex_options_large_initial =
     \<lparr>reconnect = DEFAULT_RECONNECT\<lparr>initialDelayMs := 60000\<rparr>, has_onConnect = False,
      has_onDisconnect = False, has_onReconnecting = False\<rparr>"

definition ex_options :: ResilientConnectionOptions where
  "ex_options = \<lparr>reconnect = DEFAULT_RECONNECT, has_onConnect = True, has_onDisconnect = False, has_onReconnecting = False\<rparr>"

definition quiet :: "nat effect list \<Rightarrow> nat \<Rightarrow> nat reaction" where
  "quiet h c = \<lparr>ops = [], raises = False\<rparr>"

definition ex_options3 :: ResilientConnectionOptions where
  "ex_options3 = \<lparr>reconnect = DEFAULT_RECONNECT\<lparr>maxRetries := Finite 3\<rparr>, has_onConnect = False, has_onDisconnect = False, has_onReconnecting = True\<rparr>"

definition ex_options0 :: ResilientConnectionOptions where
  "ex_options0 = \<lparr>reconnect = DEFAULT_RECONNECT\<lparr>maxRetries := Finite 0\<rparr>, has_onConnect = False, has_onDisconnect = False, has_onReconnecting = False\<rparr>"




definition ex_message :: message where
  "ex_message =
     \<lparr>routingKey = ''user.created'', redelivered = False, body = ''{}'', deliveryTag = 1\<rparr>"

definition ex_consumer_options :: ConsumerOptions where
  "ex_consumer_options =
     \<lparr>queue = ''my-queue'', c_exchange = Some ''events'', c_routingKey = ''#'',
      c_durable = True, c_prefetch = 10, onError_given = True\<rparr>"

definition ex_consumer_state :: "nat ConsumerState" where
  "ex_consumer_state =
     \<lparr>con_channel = Some 3, consumerTag = Some ''ctag-1'', isActive = True, wasActive = True,
      messagesConsumed = 0, messagesConsumeFailed = 0, lastConsumeAt = None,
      unsubscribeReconnect = Some 0\<rparr>"

definition ex_consumer_env :: consumer_env where
  "ex_consumer_env =
     \<lparr>handler_result = Throws ''handler failed'', onError_result = Returns,
      c_ack_result = Returns, c_nack_result = Throws ''Channel closed'', t_consumed = 0\<rparr>"

definition ex_bridge_env :: bridge_env where
  "ex_bridge_env =
     \<lparr>forward_reply = Throws ''timeout'', b_ack_result = Returns, b_nack_result = Returns,
      t_forwarded = 0, t_error1 = 0, t_error2 = 0\<rparr>"

definition ex_bridge_state :: BridgeInternalState where
  "ex_bridge_state =
     \<lparr>consumerChannel = Some 5, producerChannel = Some 6, isRunning = True,
      consumerTags = [''ctag-2''],
      metrics = \<lparr>messagesForwarded = 0, messagesFailed = 0, lastMessageAt = None\<rparr>,
      errorLogCount = 0, lastErrorLogReset = 0\<rparr>"

section \<open>Theorems\<close>

subsection \<open>Connection manager: state and connection handle\<close>

lemmas machine_defs =
  createConnection_def connectWithRetry_def loop_head_def emit_def manager_initial_def
  metrics_initial_def on_connect_resolved_def on_attempt_failed_def retry_or_fail_def
  on_connection_closed_def scheduleReconnect_def finish_close_def recordConnect_def
  recordDisconnect_def setConnectionState_def setReconnectAttempt_def nextDelay_def
  onReconnect_def unsubscribe_def

text \<open>
  C3, at the failing input. The manager is connected, loses its connection and
  reconnects; the caller's \<open>onConnect\<close> observer throws on the second connection. The
  \<open>catch\<close> block closes and clears the new connection handle but leaves the state at
  \<open>connected\<close>: while \<open>connectWithRetry\<close> sleeps before the next attempt,
  \<open>getState()\<close> is \<open>connected\<close>, the handle is absent and \<open>isConnected()\<close> is
  false.
\<close>

theorem state_connected_without_handle:
  "map_option (\<lambda>w. (getState (mgr w), getConnection (mgr w), isConnected (mgr w), loop w))
     (run ex_options 1 quiet
        [ConnectResolved 1 Returns, ConnectionClosed 1 Returns Returns,
         ConnectResolved 2 (Throws ''boom''), CleanupSettled]
        (createConnection ex_options Returns))
   = Some (connected, None, False, Sleeping 1 1000)"
  by (simp add: machine_defs ex_options_def quiet_def DEFAULT_RECONNECT_def getState_def
      getConnection_def isConnected_def)

lemma handle_inv_initial: "handle_inv (createConnection opts orc)"
  by (simp add: machine_defs handle_inv_def Let_def split: outcome.splits)

lemma handle_inv_step:
  assumes "handle_inv w" "observer_returns opts e" "step opts fuel beh w e = Some w'"
  shows "handle_inv w'"
  using assms
  by (cases e)
     (auto simp: machine_defs handle_inv_def observer_returns_def Let_def
           split: loop_state.splits option.splits if_splits outcome.splits)

lemma handle_inv_run:
  "run opts fuel beh es w = Some w' \<Longrightarrow> handle_inv w \<Longrightarrow>
   \<forall>e \<in> set es. observer_returns opts e \<Longrightarrow> handle_inv w'"
proof (induction es arbitrary: w)
  case Nil
  then show ?case by simp
next
  case (Cons e es)
  from Cons.prems(1) obtain w1 where s: "step opts fuel beh w e = Some w1"
    and r: "run opts fuel beh es w1 = Some w'"
    by (auto split: option.splits)
  have "handle_inv w1"
    using handle_inv_step [OF Cons.prems(2) _ s] Cons.prems(3) by simp
  with Cons.IH [OF r] Cons.prems(3) show ?case by simp
qed

lemma connected_iff_handle:
  assumes "run opts fuel beh es (createConnection opts orc) = Some w"
    and "\<forall>e \<in> set es. observer_returns opts e"
  shows "isConnected (mgr w) = (state (mgr w) = connected)
       \<and> (connection (mgr w) \<noteq> None) = (state (mgr w) = connected)
       \<and> (createChannel (mgr w) r \<noteq> None \<longrightarrow> isConnected (mgr w))
       \<and> (createConfirmChannel (mgr w) r \<noteq> None \<longrightarrow> isConnected (mgr w))"
proof -
  have "handle_inv w"
    using handle_inv_run [OF assms(1) handle_inv_initial assms(2)] .
  then show ?thesis
    by (auto simp: handle_inv_def isConnected_def createChannel_def createConfirmChannel_def
        split: loop_state.splits option.splits)
qed

lemma single_loop_initial: "single_loop (createConnection opts orc)"
  by (simp add: machine_defs single_loop_def Let_def split: outcome.splits)

lemma length_le_1_cases: "length xs \<le> 1 \<Longrightarrow> xs = [] \<or> (\<exists>x. xs = [x])"
  by (cases xs) auto

lemma single_loop_step:
  assumes "single_loop w" "step opts fuel beh w e = Some w'"
  shows "single_loop w'"
proof (cases e)
  case (ConnectionClosed c od orc)
  show ?thesis
  proof (cases "c \<in> set (listeners w)")
    case True
    then have "listeners w = [c]" and "loop w = Idle"
      using assms(1) length_le_1_cases [of "listeners w"] by (auto simp: single_loop_def)
    then show ?thesis
      using assms(2) ConnectionClosed
      by (auto simp: machine_defs single_loop_def Let_def split: outcome.splits if_splits)
  next
    case False
    then show ?thesis using assms ConnectionClosed by simp
  qed
qed (use assms in \<open>auto simp: machine_defs single_loop_def Let_def
        split: loop_state.splits option.splits if_splits outcome.splits\<close>)

lemma single_loop_run:
  "run opts fuel beh es w = Some w' \<Longrightarrow> single_loop w \<Longrightarrow> single_loop w'"
proof (induction es arbitrary: w)
  case Nil
  then show ?case by simp
next
  case (Cons e es)
  from Cons.prems(1) obtain w1 where s: "step opts fuel beh w e = Some w1"
    and r: "run opts fuel beh es w1 = Some w'"
    by (auto split: option.splits)
  from Cons.IH [OF r single_loop_step [OF Cons.prems(2) s]] show ?case .
qed

text \<open>
  A connection can emit \<open>close\<close> to the manager only while no \<open>connectWithRetry\<close>
  is suspended: the invocation that the \<open>close\<close> listener starts never runs beside
  another one.
\<close>

lemma loops_do_not_overlap:
  assumes "run opts fuel beh es (createConnection opts orc) = Some w"
    and "c \<in> set (listeners w)"
  shows "loop w = Idle"
  using single_loop_run [OF assms(1) single_loop_initial] assms(2)
  by (auto simp: single_loop_def)

subsection \<open>Connection manager: the backoff delays\<close>

lemma delay_at_Suc: "delay_at cfg (Suc k) = nextDelay cfg (delay_at cfg k)"
  by (simp add: delay_at_def)

lemma delay_at_0: "delay_at cfg 0 = initialDelayMs cfg"
  by (simp add: delay_at_def)

lemma backoff_Suc: "backoff cfg (Suc n) = backoff cfg n @ [delay_at cfg n]"
  by (simp add: backoff_def)

lemma backoff_0: "backoff cfg 0 = []"
  by (simp add: backoff_def)

lemma notify_delays:
  "notify f beh xs i tr = Some (xs', tr') \<Longrightarrow> delays_by_loop tr' = delays_by_loop tr"
proof (induction f arbitrary: xs i tr)
  case 0
  then show ?case by simp
next
  case (Suc f)
  show ?case
  proof (cases "i < length xs")
    case False
    with Suc.prems show ?thesis by simp
  next
    case True
    show ?thesis
    proof (cases "xs ! i")
      case None
      with True Suc.prems Suc.IH show ?thesis by simp
    next
      case (Some c)
      with True Suc.prems
      have "notify f beh (apply_ops (ops (beh tr c)) xs) (i + 1)
              ((if raises (beh tr c) then [SubscriberErrorLogged c] else []) @ Notified c # tr)
            = Some (xs', tr')"
        by simp
      from Suc.IH [OF this] show ?thesis by (simp split: if_splits)
    qed
  qed
qed

lemma backoff_inv_initial: "backoff_inv (reconnect opts) (createConnection opts orc)"
  by (simp add: machine_defs backoff_inv_def current_delay_ok_def delay_at_0 backoff_0 Let_def
      split: outcome.splits)


lemma inv_loop_head:
  assumes "\<forall>ds \<in> set (delays_by_loop (trace w)). ds = backoff cfg (length ds)"
    and "current_delay_ok cfg (delays_by_loop (trace w)) d"
  shows "backoff_inv cfg (loop_head opts orc a d w)"
  using assms
  by (simp add: loop_head_def emit_def backoff_inv_def Let_def split: outcome.splits)

lemma inv_connectWithRetry:
  assumes "\<forall>ds \<in> set (delays_by_loop (trace w)). ds = backoff (reconnect opts) (length ds)"
  shows "backoff_inv (reconnect opts) (connectWithRetry opts orc w)"
  unfolding connectWithRetry_def
  by (rule inv_loop_head)
     (use assms in \<open>simp_all add: emit_def current_delay_ok_def delay_at_0 backoff_0\<close>)

lemma inv_retry_or_fail:
  assumes "\<forall>ds \<in> set (delays_by_loop (trace w)). ds = backoff (reconnect opts) (length ds)"
    and "current_delay_ok (reconnect opts) (delays_by_loop (trace w)) d"
  shows "backoff_inv (reconnect opts) (retry_or_fail opts a d msg w)"
  using assms
  by (auto simp: retry_or_fail_def emit_def backoff_inv_def current_delay_ok_def
        slept_delay_ok_def backoff_Suc split: list.splits)

lemma inv_on_attempt_failed:
  assumes "\<forall>ds \<in> set (delays_by_loop (trace w)). ds = backoff (reconnect opts) (length ds)"
    and "current_delay_ok (reconnect opts) (delays_by_loop (trace w)) d"
  shows "backoff_inv (reconnect opts) (on_attempt_failed opts a d msg w)"
proof (cases "connection (mgr w)")
  case None
  then show ?thesis
    using inv_retry_or_fail [OF assms] by (simp add: on_attempt_failed_def)
next
  case (Some c)
  then show ?thesis
    using assms by (simp add: on_attempt_failed_def backoff_inv_def)
qed

lemma inv_on_connect_resolved:
  assumes "\<forall>ds \<in> set (delays_by_loop (trace w)). ds = backoff (reconnect opts) (length ds)"
    and "current_delay_ok (reconnect opts) (delays_by_loop (trace w)) d"
    and "on_connect_resolved opts fuel beh a d c oc w = Some w'"
  shows "backoff_inv (reconnect opts) w'"
proof (cases "has_onConnect opts \<and> oc \<noteq> Returns")
  case True
  then obtain e where oc: "oc = Throws e" by (cases oc) auto
  let ?w2 = "emit OnConnectCalled
               (w\<lparr>mgr := (mgr w)\<lparr>connection := Some c, state := connected\<rparr>,
                  listeners := c # listeners w, met := recordConnect (met w)\<rparr>)"
  have w': "w' = on_attempt_failed opts a d e ?w2"
    using assms(3) True oc by (simp add: on_connect_resolved_def Let_def)
  have "delays_by_loop (trace ?w2) = delays_by_loop (trace w)"
    by (simp add: emit_def)
  with assms(1,2) show ?thesis
    unfolding w' by (intro inv_on_attempt_failed) simp_all
next
  case False
  let ?w1 = "w\<lparr>mgr := (mgr w)\<lparr>connection := Some c, state := connected\<rparr>,
                  listeners := c # listeners w, met := recordConnect (met w)\<rparr>"
  let ?w2 = "if has_onConnect opts then emit OnConnectCalled ?w1 else ?w1"
  have d2: "delays_by_loop (trace ?w2) = delays_by_loop (trace w)"
    by (simp add: emit_def)
  from assms(3) False obtain xs tr where
    n: "notify fuel beh (reconnectSubscribers (mgr ?w2)) 0 (trace ?w2) = Some (xs, tr)"
    and w': "w' = ?w2\<lparr>mgr := (mgr ?w2)\<lparr>reconnectSubscribers := xs\<rparr>,
                      trace := LoopConnected # tr, loop := Idle\<rparr>"
    by (auto simp: on_connect_resolved_def Let_def split: option.splits if_splits)
  from notify_delays [OF n] d2 have "delays_by_loop tr = delays_by_loop (trace w)" by simp
  with assms(1) show ?thesis
    unfolding w' by (simp add: backoff_inv_def)
qed

lemma inv_scheduleReconnect:
  assumes "backoff_inv (reconnect opts) w"
  shows "backoff_inv (reconnect opts) (scheduleReconnect opts orc w)"
proof (cases "isShuttingDown (mgr w) \<or> state (mgr w) = reconnecting")
  case True
  with assms show ?thesis by (simp add: scheduleReconnect_def)
next
  case False
  have "backoff_inv (reconnect opts)
          (connectWithRetry opts orc
             (w\<lparr>mgr := (mgr w)\<lparr>state := reconnecting, connection := None\<rparr>,
                met := setConnectionState reconnecting (met w)\<rparr>))"
    by (rule inv_connectWithRetry) (use assms in \<open>simp add: backoff_inv_def\<close>)
  with False show ?thesis by (simp add: scheduleReconnect_def)
qed

lemma backoff_inv_frame:
  assumes "backoff_inv cfg w" "trace w' = trace w" "loop w' = loop w"
  shows "backoff_inv cfg w'"
  using assms by (auto simp: backoff_inv_def split: loop_state.splits)

lemma inv_on_connection_closed:
  assumes "backoff_inv (reconnect opts) w"
  shows "backoff_inv (reconnect opts) (on_connection_closed opts od orc w)"
proof -
  define w2 where
    "w2 = (if has_onDisconnect opts
           then emit OnDisconnectCalled (w\<lparr>met := recordDisconnect (met w)\<rparr>)
           else w\<lparr>met := recordDisconnect (met w)\<rparr>)"
  have i2: "backoff_inv (reconnect opts) w2"
    using assms by (auto simp: w2_def backoff_inv_def emit_def split: loop_state.splits)
  have "on_connection_closed opts od orc w =
          (if has_onDisconnect opts \<and> od \<noteq> Returns then w2
           else if \<not> isShuttingDown (mgr w2) then scheduleReconnect opts orc w2 else w2)"
    by (simp add: on_connection_closed_def Let_def w2_def)
  then show ?thesis
    using i2 inv_scheduleReconnect [OF i2, of orc] by simp
qed

lemma backoff_inv_step:
  assumes "backoff_inv (reconnect opts) w" "step opts fuel beh w e = Some w'"
  shows "backoff_inv (reconnect opts) w'"
proof (cases e)
  case (ConnectResolved c oc)
  show ?thesis
  proof (cases "loop w")
    case (AwaitConnect a d)
    then show ?thesis
      using assms ConnectResolved inv_on_connect_resolved [of w opts d fuel beh a c oc w']
      by (simp add: backoff_inv_def)
  qed (use assms ConnectResolved in simp_all)
next
  case (ConnectRejected msg)
  show ?thesis
  proof (cases "loop w")
    case (AwaitConnect a d)
    then show ?thesis
      using assms ConnectRejected inv_on_attempt_failed [of w opts d a msg]
      by (auto simp: backoff_inv_def)
  qed (use assms ConnectRejected in simp_all)
next
  case CleanupSettled
  show ?thesis
  proof (cases "loop w")
    case (AwaitCleanup a d msg)
    then show ?thesis
      using assms CleanupSettled
        inv_retry_or_fail [of "w\<lparr>mgr := (mgr w)\<lparr>connection := None\<rparr>\<rparr>" opts d a msg]
      by (auto simp: backoff_inv_def)
  qed (use assms CleanupSettled in simp_all)
next
  case (SleepElapsed orc)
  show ?thesis
  proof (cases "loop w")
    case (Sleeping a d)
    have "current_delay_ok (reconnect opts) (delays_by_loop (trace w))
            (nextDelay (reconnect opts) d)"
      using assms(1) Sleeping
      by (cases "delays_by_loop (trace w)")
         (auto simp: backoff_inv_def slept_delay_ok_def current_delay_ok_def
               delay_at_Suc [symmetric])
    then show ?thesis
      using assms SleepElapsed Sleeping
        inv_loop_head [of w "reconnect opts" "nextDelay (reconnect opts) d" opts orc a]
      by (auto simp: backoff_inv_def)
  qed (use assms SleepElapsed in simp_all)
next
  case (ConnectionClosed c od orc)
  show ?thesis
  proof (cases "c \<in> set (listeners w)")
    case True
    have "backoff_inv (reconnect opts) (w\<lparr>listeners := removeAll c (listeners w)\<rparr>)"
      by (rule backoff_inv_frame [OF assms(1)]) simp_all
    from inv_on_connection_closed [OF this, of od orc] show ?thesis
      using assms(2) ConnectionClosed True by simp
  next
    case False
    then show ?thesis using assms ConnectionClosed by simp
  qed
next
  case CloseCalled
  then show ?thesis
    using assms
    by (auto simp: finish_close_def Let_def split: option.splits
          intro: backoff_inv_frame [OF assms(1)])
next
  case CloseSettled
  then show ?thesis
    using assms
    by (auto simp: finish_close_def split: if_splits intro: backoff_inv_frame [OF assms(1)])
next
  case (OnReconnectCalled cb)
  then show ?thesis
    using assms by (auto intro: backoff_inv_frame [OF assms(1)])
next
  case (UnsubscribeCalled cb)
  then show ?thesis
    using assms by (auto intro: backoff_inv_frame [OF assms(1)])
qed

lemma backoff_inv_run:
  "run opts fuel beh es w = Some w' \<Longrightarrow> backoff_inv (reconnect opts) w \<Longrightarrow>
   backoff_inv (reconnect opts) w'"
proof (induction es arbitrary: w)
  case Nil
  then show ?case by simp
next
  case (Cons e es)
  from Cons.prems(1) obtain w1 where s: "step opts fuel beh w e = Some w1"
    and r: "run opts fuel beh es w1 = Some w'"
    by (auto split: option.splits)
  from Cons.IH [OF r backoff_inv_step [OF Cons.prems(2) s]] show ?case .
qed

lemma delay_at_bounds:
  assumes "0 \<le> initialDelayMs cfg" "initialDelayMs cfg \<le> maxDelayMs cfg" "1 \<le> multiplier cfg"
  shows "0 \<le> delay_at cfg k \<and> delay_at cfg k \<le> maxDelayMs cfg
       \<and> delay_at cfg k \<le> delay_at cfg (Suc k)"
proof (induction k)
  case 0
  have "initialDelayMs cfg * 1 \<le> initialDelayMs cfg * multiplier cfg"
    using assms(1,3) by (rule mult_left_mono [OF _ _, rotated]) 
  then show ?case
    using assms by (simp add: delay_at_Suc delay_at_0 nextDelay_def)
next
  case (Suc k)
  let ?d = "delay_at cfg (Suc k)"
  have d: "0 \<le> ?d" "?d \<le> maxDelayMs cfg"
    using Suc assms by (auto simp: delay_at_Suc [of cfg k] nextDelay_def)
  have "?d * 1 \<le> ?d * multiplier cfg"
    using d(1) assms(3) by (rule mult_left_mono [OF _ _, rotated])
  then show ?case
    using d by (simp add: delay_at_Suc [of cfg "Suc k"] nextDelay_def)
qed


lemma delay_at_mono:
  assumes "0 \<le> initialDelayMs cfg" "initialDelayMs cfg \<le> maxDelayMs cfg" "1 \<le> multiplier cfg"
    and "i \<le> j"
  shows "delay_at cfg i \<le> delay_at cfg j"
proof -
  have step: "\<And>n. delay_at cfg n \<le> delay_at cfg (Suc n)"
    using delay_at_bounds [OF assms(1-3)] by blast
  show ?thesis
    by (rule lift_Suc_mono_le [of "delay_at cfg", OF step assms(4)])
qed

lemma backoff_sorted:
  assumes "0 \<le> initialDelayMs cfg" "initialDelayMs cfg \<le> maxDelayMs cfg" "1 \<le> multiplier cfg"
  shows "sorted (backoff cfg n)"
proof (induction n)
  case 0
  show ?case by (simp add: backoff_0)
next
  case (Suc n)
  have "x \<le> delay_at cfg n" if "x \<in> set (backoff cfg n)" for x
  proof -
    from that obtain k where "k < n" "x = delay_at cfg k"
      by (auto simp: backoff_def)
    then show ?thesis
      using delay_at_mono [OF assms, of k n] by simp
  qed
  with Suc show ?case
    by (simp add: backoff_Suc sorted_append)
qed

text \<open>
  C4 (as amended). Let the configuration satisfy \<open>0 \<le> initialDelayMs \<le> maxDelayMs\<close>
  and \<open>multiplier \<ge> 1\<close>. In every run of a manager, the delays slept by any one
  invocation of \<open>connectWithRetry\<close> are non-decreasing, none exceeds \<open>maxDelayMs\<close>,
  each next delay is \<open>min (delay * multiplier) maxDelayMs\<close>, and the first delay of
  every invocation, the initial one and each one started after a lost connection, is
  \<open>initialDelayMs\<close>.
\<close>

theorem backoff_delays:
  assumes "0 \<le> initialDelayMs (reconnect opts)"
    and "initialDelayMs (reconnect opts) \<le> maxDelayMs (reconnect opts)"
    and "1 \<le> multiplier (reconnect opts)"
    and "run opts fuel beh es (createConnection opts orc) = Some w"
    and "ds \<in> set (delays_by_loop (trace w))"
  shows "sorted ds
       \<and> (\<forall>d \<in> set ds. d \<le> maxDelayMs (reconnect opts))
       \<and> (\<forall>i. Suc i < length ds \<longrightarrow> ds ! Suc i = nextDelay (reconnect opts) (ds ! i))
       \<and> (ds \<noteq> [] \<longrightarrow> hd ds = initialDelayMs (reconnect opts))"
proof -
  have "backoff_inv (reconnect opts) w"
    using backoff_inv_run [OF assms(4) backoff_inv_initial] .
  with assms(5) have ds: "ds = backoff (reconnect opts) (length ds)"
    by (simp add: backoff_inv_def)
  have 1: "sorted ds"
    using backoff_sorted [OF assms(1-3), of "length ds"] ds by simp
  have 2: "\<forall>d \<in> set ds. d \<le> maxDelayMs (reconnect opts)"
  proof
    fix d assume "d \<in> set ds"
    then have "d \<in> set (backoff (reconnect opts) (length ds))" using ds by simp
    then obtain k where "d = delay_at (reconnect opts) k" by (auto simp: backoff_def)
    then show "d \<le> maxDelayMs (reconnect opts)"
      using delay_at_bounds [OF assms(1-3), of k] by simp
  qed
  have 3: "ds ! Suc i = nextDelay (reconnect opts) (ds ! i)" if "Suc i < length ds" for i
  proof -
    have "ds ! Suc i = backoff (reconnect opts) (length ds) ! Suc i"
      and "ds ! i = backoff (reconnect opts) (length ds) ! i"
      using ds by simp_all
    then show ?thesis using that by (simp add: backoff_def delay_at_Suc)
  qed
  have 4: "hd ds = initialDelayMs (reconnect opts)" if "ds \<noteq> []"
  proof -
    have "hd ds = ds ! 0" using that by (simp add: hd_conv_nth)
    also have "\<dots> = backoff (reconnect opts) (length ds) ! 0" using ds by simp
    also have "\<dots> = initialDelayMs (reconnect opts)"
      using that by (simp add: backoff_def delay_at_0)
    finally show ?thesis .
  qed
  from 1 2 3 4 show ?thesis by blast
qed

theorem backoff_delays_witness:
  "\<exists>w. run ex_options 0 quiet
          [ConnectRejected ''x'', SleepElapsed Returns, ConnectRejected ''x'',
           SleepElapsed Returns, ConnectRejected ''x'']
          (createConnection ex_options Returns) = Some w
       \<and> delays_by_loop (trace w) = [[1000, 2000, 4000]]
       \<and> sorted [1000, 2000, 4000 :: real]
       \<and> hd [1000, 2000, 4000 :: real] = initialDelayMs (reconnect ex_options)"
proof -
  have "\<exists>w. run ex_options 0 quiet
          [ConnectRejected ''x'', SleepElapsed Returns, ConnectRejected ''x'',
           SleepElapsed Returns, ConnectRejected ''x'']
          (createConnection ex_options Returns) = Some w
       \<and> delays_by_loop (trace w) = [[1000, 2000, 4000]]"
    by (simp add: machine_defs ex_options_def DEFAULT_RECONNECT_def Let_def)
  then obtain w where w: "run ex_options 0 quiet
          [ConnectRejected ''x'', SleepElapsed Returns, ConnectRejected ''x'',
           SleepElapsed Returns, ConnectRejected ''x'']
          (createConnection ex_options Returns) = Some w"
    and d: "delays_by_loop (trace w) = [[1000, 2000, 4000]]"
    by blast
  have c: "0 \<le> initialDelayMs (reconnect ex_options)"
    "initialDelayMs (reconnect ex_options) \<le> maxDelayMs (reconnect ex_options)"
    "1 \<le> multiplier (reconnect ex_options)"
    by (simp_all add: ex_options_def DEFAULT_RECONNECT_def)
  have m: "[1000, 2000, 4000] \<in> set (delays_by_loop (trace w))" using d by simp
  from backoff_delays [OF c w m]
  have "sorted [1000, 2000, 4000 :: real]"
    and "hd [1000, 2000, 4000 :: real] = initialDelayMs (reconnect ex_options)"
    by simp_all
  with w d show ?thesis by blast
qed

text \<open>
  C4 as it is stated fails for a configuration the code accepts as it is (nothing
  validates it): with \<open>initialDelayMs = 60000\<close> above \<open>maxDelayMs = 30000\<close> the first
  delay slept is 60000, which exceeds \<open>maxDelayMs\<close>, and the second is 30000, which
  is less than the first.
\<close>

theorem backoff_counterexample:
  "map_option (\<lambda>w. delays_by_loop (trace w))
     (run ex_options_large_initial 0 quiet
        [ConnectRejected ''x'', SleepElapsed Returns, ConnectRejected ''x'']
        (createConnection ex_options_large_initial Returns))
   = Some [[60000, 30000]]
   \<and> maxDelayMs (reconnect ex_options_large_initial) = 30000"
  by (simp add: machine_defs ex_options_large_initial_def DEFAULT_RECONNECT_def Let_def)

subsection \<open>Connection manager: the reconnect subscribers\<close>





lemma apply_ops_length: "length xs \<le> length (apply_ops os xs)"
proof (induction os arbitrary: xs)
  case Nil
  show ?case by simp
next
  case (Cons x os)
  have "length xs \<le> length (apply_op x xs)"
    by (cases x) (simp_all add: set_add_def set_delete_def)
  with Cons.IH [of "apply_op x xs"] show ?case by simp
qed




lemma notify_induct [consumes 1, case_names stop skip call]:
  assumes "notify f beh xs i tr = Some (xs', tr')"
    and stop: "\<And>i. \<not> i < length xs' \<Longrightarrow> P xs' i tr'"
    and skip: "\<And>f xs i tr. i < length xs \<Longrightarrow> xs ! i = None \<Longrightarrow>
                 notify (Suc f) beh xs i tr = Some (xs', tr') \<Longrightarrow>
                 P xs (i + 1) tr \<Longrightarrow> P xs i tr"
    and call: "\<And>f xs i tr d. i < length xs \<Longrightarrow> xs ! i = Some d \<Longrightarrow>
                 notify (Suc f) beh xs i tr = Some (xs', tr') \<Longrightarrow>
                 notify f beh (apply_ops (ops (beh tr d)) xs) (i + 1)
                   ((if raises (beh tr d) then [SubscriberErrorLogged d] else []) @ Notified d # tr)
                   = Some (xs', tr') \<Longrightarrow>
                 P (apply_ops (ops (beh tr d)) xs) (i + 1)
                   ((if raises (beh tr d) then [SubscriberErrorLogged d] else []) @ Notified d # tr)
                 \<Longrightarrow> P xs i tr"
  shows "P xs i tr"
  using assms(1)
proof (induction f arbitrary: xs i tr)
  case 0
  then show ?case by simp
next
  case (Suc f)
  show ?case
  proof (cases "i < length xs")
    case False
    with Suc.prems have "xs' = xs" "tr' = tr" by simp_all
    with False stop [of i] show ?thesis by simp
  next
    case True
    show ?thesis
    proof (cases "xs ! i")
      case None
      with True Suc.prems have n: "notify f beh xs (i + 1) tr = Some (xs', tr')" by simp
      from skip [OF True None Suc.prems Suc.IH [OF n]] show ?thesis .
    next
      case (Some d)
      with True Suc.prems
      have n: "notify f beh (apply_ops (ops (beh tr d)) xs) (i + 1)
                 ((if raises (beh tr d) then [SubscriberErrorLogged d] else []) @ Notified d # tr)
               = Some (xs', tr')" by simp
      from call [OF True Some Suc.prems n Suc.IH [OF n]] show ?thesis .
    qed
  qed
qed

lemma notify_length:
  "notify f beh xs i tr = Some (xs', tr') \<Longrightarrow> length xs \<le> length xs'"
proof (induction rule: notify_induct)
  case (call f xs i tr d)
  with apply_ops_length [of xs "ops (beh tr d)"] show ?case by simp
qed simp_all

































lemma passes_ext_silent: "silent_step w w' \<Longrightarrow> passes_ext Q (trace w) (trace w')"
  by (simp add: silent_step_def passes_ext_def)















lemma run_append:
  "run opts fuel beh (es1 @ es2) w =
     (case run opts fuel beh es1 w of None \<Rightarrow> None | Some w1 \<Rightarrow> run opts fuel beh es2 w1)"
  by (induction es1 arbitrary: w) (auto split: option.splits)






subsection \<open>Connection manager: the retry cap\<close>

lemma step_rejected_last:
  assumes "loop w = AwaitConnect a d" "connection (mgr w) = None"
    and "maxRetries (reconnect opts) \<noteq> Finite (- 1)"
    and "number_ge a (maxRetries (reconnect opts))"
  shows "step opts fuel beh w (ConnectRejected m) =
           Some (emit (LoopRejected (''Failed to connect after '' @ show_nat a @ '' attempts: '' @ m))
                  (w\<lparr>loop := Idle\<rparr>))"
  using assms by (simp add: on_attempt_failed_def retry_or_fail_def)

lemma step_rejected_retry:
  assumes "loop w = AwaitConnect a d" "connection (mgr w) = None"
    and "\<not> number_ge a (maxRetries (reconnect opts))"
  shows "step opts fuel beh w (ConnectRejected m) =
           Some (emit (SleepStarted d) (w\<lparr>loop := Sleeping a d\<rparr>))"
  using assms by (simp add: on_attempt_failed_def retry_or_fail_def)

lemma step_sleep_elapsed:
  assumes "loop w = Sleeping a d" "\<not> isShuttingDown (mgr w)"
    and "has_onReconnecting opts \<longrightarrow> orc = Returns"
  shows "\<exists>w1. step opts fuel beh w (SleepElapsed orc) = Some w1
           \<and> loop w1 = AwaitConnect (a + 1) (nextDelay (reconnect opts) d)
           \<and> connection (mgr w1) = connection (mgr w)
           \<and> state (mgr w1) = connecting
           \<and> isShuttingDown (mgr w1) = isShuttingDown (mgr w)
           \<and> connectionsEstablished (met w1) = connectionsEstablished (met w)
           \<and> count_list (trace w1) ConnectCalled = count_list (trace w) ConnectCalled + 1"
  using assms
  by (cases "has_onReconnecting opts")
     (simp_all add: loop_head_def emit_def setConnectionState_def setReconnectAttempt_def Let_def)

lemma attempts_fail_from:
  assumes "loop w = AwaitConnect a d" "\<not> isShuttingDown (mgr w)" "connection (mgr w) = None"
    and "state (mgr w) = connecting"
    and "maxRetries (reconnect opts) \<noteq> Finite (- 1)"
    and "number_ge (a + length later) (maxRetries (reconnect opts))"
    and "\<forall>k. a \<le> k \<and> k < a + length later \<longrightarrow> \<not> number_ge k (maxRetries (reconnect opts))"
    and "has_onReconnecting opts \<longrightarrow> (\<forall>x \<in> set later. fst x = Returns)"
  shows "\<exists>w'. run opts fuel beh (all_attempts_fail m later) w = Some w'
           \<and> loop w' = Idle
           \<and> hd (trace w') =
               LoopRejected (''Failed to connect after '' @ show_nat (a + length later)
                 @ '' attempts: '' @ last (m # map snd later))
           \<and> count_list (trace w') ConnectCalled
               = count_list (trace w) ConnectCalled + length later
           \<and> state (mgr w') = connecting \<and> connection (mgr w') = None
           \<and> connectionsEstablished (met w') = connectionsEstablished (met w)"
  using assms
proof (induction m later arbitrary: w a d rule: all_attempts_fail.induct)
  case (1 m)
  then show ?case
    using step_rejected_last [of w a d opts fuel beh m] by (simp add: emit_def)
next
  case (2 m orc m' later)
  have "\<not> number_ge a (maxRetries (reconnect opts))"
    using "2.prems"(7) by simp
  from step_rejected_retry [OF "2.prems"(1) "2.prems"(3) this]
  have s1: "step opts fuel beh w (ConnectRejected m) =
              Some (emit (SleepStarted d) (w\<lparr>loop := Sleeping a d\<rparr>))" .
  let ?w1 = "emit (SleepStarted d) (w\<lparr>loop := Sleeping a d\<rparr>)"
  have "loop ?w1 = Sleeping a d" "\<not> isShuttingDown (mgr ?w1)"
    using "2.prems"(2) by (simp_all add: emit_def)
  moreover have "has_onReconnecting opts \<longrightarrow> orc = Returns"
    using "2.prems"(8) by simp
  ultimately obtain w2 where s2: "step opts fuel beh ?w1 (SleepElapsed orc) = Some w2"
    and l2: "loop w2 = AwaitConnect (a + 1) (nextDelay (reconnect opts) d)"
    and c2: "connection (mgr w2) = connection (mgr ?w1)"
    and st2: "state (mgr w2) = connecting"
    and sh2: "isShuttingDown (mgr w2) = isShuttingDown (mgr ?w1)"
    and e2: "connectionsEstablished (met w2) = connectionsEstablished (met ?w1)"
    and n2: "count_list (trace w2) ConnectCalled = count_list (trace ?w1) ConnectCalled + 1"
    using step_sleep_elapsed [of ?w1 a d opts orc fuel beh] by blast
  have p2: "\<not> isShuttingDown (mgr w2)" "connection (mgr w2) = None"
    using sh2 c2 "2.prems"(2,3) by (simp_all add: emit_def)
  have p6: "number_ge (a + 1 + length later) (maxRetries (reconnect opts))"
    using "2.prems"(6) by simp
  have p7: "\<forall>k. a + 1 \<le> k \<and> k < a + 1 + length later
              \<longrightarrow> \<not> number_ge k (maxRetries (reconnect opts))"
    using "2.prems"(7) by simp
  have p8: "has_onReconnecting opts \<longrightarrow> (\<forall>x \<in> set later. fst x = Returns)"
    using "2.prems"(8) by simp
  from "2.IH" [OF l2 p2 st2 "2.prems"(5) p6 p7 p8]
  obtain w' where r: "run opts fuel beh (all_attempts_fail m' later) w2 = Some w'"
    and f: "loop w' = Idle"
      "hd (trace w') =
         LoopRejected (''Failed to connect after '' @ show_nat (a + 1 + length later)
           @ '' attempts: '' @ last (m' # map snd later))"
      "count_list (trace w') ConnectCalled = count_list (trace w2) ConnectCalled + length later"
      "state (mgr w') = connecting" "connection (mgr w') = None"
      "connectionsEstablished (met w') = connectionsEstablished (met w2)"
    by auto
  have "run opts fuel beh (all_attempts_fail m ((orc, m') # later)) w = Some w'"
    using s1 s2 r by simp
  moreover have "count_list (trace w') ConnectCalled
      = count_list (trace w) ConnectCalled + length ((orc, m') # later)"
    using f(3) n2 by (simp add: emit_def)
  moreover have "connectionsEstablished (met w') = connectionsEstablished (met w)"
    using f(6) e2 by (simp add: emit_def)
  ultimately show ?case using f by simp
qed

lemma established_step:
  assumes "step opts fuel beh w e = Some w'"
  shows "connectionsEstablished (met w) \<le> connectionsEstablished (met w')
       \<and> (counted_inv w \<longrightarrow> counted_inv w')"
  using assms
  by (cases e)
     (auto simp: machine_defs counted_inv_def Let_def
           split: loop_state.splits option.splits if_splits outcome.splits)

lemma established_run:
  "run opts fuel beh es w = Some w' \<Longrightarrow>
   connectionsEstablished (met w) \<le> connectionsEstablished (met w')
   \<and> (counted_inv w \<longrightarrow> counted_inv w')"
proof (induction es arbitrary: w)
  case Nil
  then show ?case by simp
next
  case (Cons e es)
  from Cons.prems obtain w1 where s: "step opts fuel beh w e = Some w1"
    and r: "run opts fuel beh es w1 = Some w'"
    by (auto split: option.splits)
  from established_step [OF s] Cons.IH [OF r] show ?case by auto
qed

lemma counted_inv_initial: "counted_inv (createConnection opts orc)"
  by (simp add: machine_defs counted_inv_def Let_def split: outcome.splits)

lemma finite_cap_reached:
  assumes "Suc n = max 1 (nat \<lceil>r\<rceil>)"
  shows "number_ge (Suc n) (Finite r)"
    and "\<forall>k. 1 \<le> k \<and> k < Suc n \<longrightarrow> \<not> number_ge k (Finite r)"
proof -
  have "\<lceil>r\<rceil> \<le> int (Suc n)" using assms by linarith
  then have "r \<le> real (Suc n)" by (simp add: ceiling_le_iff)
  then show "number_ge (Suc n) (Finite r)" by simp
  show "\<forall>k. 1 \<le> k \<and> k < Suc n \<longrightarrow> \<not> number_ge k (Finite r)"
  proof (intro allI impI)
    fix k assume k: "1 \<le> k \<and> k < Suc n"
    with assms have "int k < \<lceil>r\<rceil>" by linarith
    then have "real k < r" by (simp add: less_ceiling_iff)
    then show "\<not> number_ge k (Finite r)" by simp
  qed
qed

text \<open>
  C5 (as amended). Let the retry cap be a finite number \<open>r\<close> other than \<open>-1\<close>, let
  the broker reject every attempt, and let the \<open>onReconnecting\<close> observer, if one is
  configured, return normally at the start of every attempt. Then the initial
  \<open>connectWithRetry\<close> is rejected after exactly \<open>max 1 \<lceil>r\<rceil>\<close> calls of the broker
  client's \<open>connect\<close>, with the message "Failed to connect after n attempts: m", where
  \<open>n\<close> is that number and \<open>m\<close> the message of the last failure; no connection is
  ever counted as established, and in no state on the way is the manager's state
  \<open>connected\<close>. (The run needs no fuel: no notification loop is ever run.)
\<close>

theorem initial_connect_exhausts_retries:
  assumes "maxRetries (reconnect opts) = Finite r" and "r \<noteq> - 1"
    and "Suc (length later) = max 1 (nat \<lceil>r\<rceil>)"
    and "has_onReconnecting opts \<longrightarrow> orc = Returns \<and> (\<forall>x \<in> set later. fst x = Returns)"
  shows "\<exists>w. run opts fuel beh (all_attempts_fail m later) (createConnection opts orc) = Some w
           \<and> loop w = Idle
           \<and> hd (trace w) =
               LoopRejected (''Failed to connect after '' @ show_nat (Suc (length later))
                 @ '' attempts: '' @ last (m # map snd later))
           \<and> count_list (trace w) ConnectCalled = Suc (length later)
           \<and> connectionsEstablished (met w) = 0
           \<and> (\<forall>k w'. run opts fuel beh (take k (all_attempts_fail m later))
                        (createConnection opts orc) = Some w'
                     \<longrightarrow> state (mgr w') \<noteq> connected)"
proof -
  let ?w0 = "createConnection opts orc :: 'a world"
  let ?script = "all_attempts_fail m later :: 'a event list"
  have w0: "loop ?w0 = AwaitConnect 1 (initialDelayMs (reconnect opts))"
    "\<not> isShuttingDown (mgr ?w0)" "connection (mgr ?w0) = None" "state (mgr ?w0) = connecting"
    "count_list (trace ?w0) ConnectCalled = 1" "connectionsEstablished (met ?w0) = 0"
    using assms(4) by (cases "has_onReconnecting opts"; simp add: machine_defs Let_def)+
  have ne: "maxRetries (reconnect opts) \<noteq> Finite (- 1)"
    using assms(1,2) by simp
  have cap: "number_ge (1 + length later) (maxRetries (reconnect opts))"
    using finite_cap_reached(1) [OF assms(3)] assms(1) by simp
  have below: "\<forall>k. 1 \<le> k \<and> k < 1 + length later
                 \<longrightarrow> \<not> number_ge k (maxRetries (reconnect opts))"
    using finite_cap_reached(2) [OF assms(3)] assms(1) by simp
  have obs: "has_onReconnecting opts \<longrightarrow> (\<forall>x \<in> set later. fst x = Returns)"
    using assms(4) by simp
  from attempts_fail_from [OF w0(1-4) ne cap below obs, of fuel beh m]
  obtain w where r: "run opts fuel beh ?script ?w0 = Some w"
    and f: "loop w = Idle"
      "hd (trace w) =
         LoopRejected (''Failed to connect after '' @ show_nat (1 + length later)
           @ '' attempts: '' @ last (m # map snd later))"
      "count_list (trace w) ConnectCalled = count_list (trace ?w0) ConnectCalled + length later"
      "connectionsEstablished (met w) = connectionsEstablished (met ?w0)"
    by blast
  have never: "state (mgr w') \<noteq> connected"
    if p: "run opts fuel beh (take k ?script) ?w0 = Some w'" for k w'
  proof -
    have "run opts fuel beh (take k ?script @ drop k ?script) ?w0 = Some w"
      using r by simp
    then have "run opts fuel beh (drop k ?script) w' = Some w"
      using p by (simp only: run_append option.case)
    from established_run [OF this] f(4) w0(6)
    have z: "connectionsEstablished (met w') = 0" by simp
    from established_run [OF p] counted_inv_initial have "counted_inv w'" by blast
    with z show ?thesis by (simp add: counted_inv_def)
  qed
  have "count_list (trace w) ConnectCalled = Suc (length later)"
    using f(3) w0(5) by simp
  with r f w0(6) never show ?thesis by auto
qed

theorem initial_connect_exhausts_retries_witness:
  "\<exists>w. run ex_options3 0 quiet
          (all_attempts_fail ''ECONNREFUSED''
             [(Returns, ''ECONNREFUSED''), (Returns, ''ECONNREFUSED'')])
          (createConnection ex_options3 Returns) = Some w
       \<and> loop w = Idle
       \<and> hd (trace w) = LoopRejected ''Failed to connect after 3 attempts: ECONNREFUSED''
       \<and> count_list (trace w) ConnectCalled = 3
       \<and> connectionsEstablished (met w) = 0"
proof -
  let ?later = "[(Returns, ''ECONNREFUSED''), (Returns, ''ECONNREFUSED'')]"
  have a: "maxRetries (reconnect ex_options3) = Finite 3" "(3::real) \<noteq> - 1"
    by (simp_all add: ex_options3_def)
  have b: "Suc (length ?later) = max 1 (nat \<lceil>3::real\<rceil>)"
    by simp
  have c: "has_onReconnecting ex_options3 \<longrightarrow>
             Returns = Returns \<and> (\<forall>x \<in> set ?later. fst x = Returns)"
    by simp
  from initial_connect_exhausts_retries [OF a b c, of 0 quiet "''ECONNREFUSED''"]
  obtain w where
    "run ex_options3 0 quiet (all_attempts_fail ''ECONNREFUSED'' ?later)
       (createConnection ex_options3 Returns) = Some w"
    "loop w = Idle"
    "hd (trace w) =
       LoopRejected (''Failed to connect after '' @ show_nat (Suc (length ?later))
         @ '' attempts: '' @ last (''ECONNREFUSED'' # map snd ?later))"
    "count_list (trace w) ConnectCalled = Suc (length ?later)"
    "connectionsEstablished (met w) = 0"
    by blast
  then show ?thesis
    by (intro exI [of _ w]) (simp add: show_nat.simps digit_char_def)
qed

text \<open>
  C5 as it is stated fails for the cap \<open>maxRetries = 0\<close>: the attempt counter is
  incremented before it is compared with the cap, so one attempt is made and the
  message cites 1 attempt, not 0.
\<close>

theorem zero_retries_counterexample:
  "map_option (\<lambda>w. (hd (trace w), count_list (trace w) ConnectCalled, loop w))
     (run ex_options0 0 quiet [ConnectRejected ''ECONNREFUSED'']
        (createConnection ex_options0 Returns))
   = Some (LoopRejected ''Failed to connect after 1 attempts: ECONNREFUSED'', 1, Idle)"
  by (simp add: machine_defs ex_options0_def DEFAULT_RECONNECT_def Let_def
      show_nat.simps digit_char_def)

text \<open>
  What the provisos of C5 exclude. A cap that is not an integer counts as the next
  integer above it: with \<open>maxRetries = 2.5\<close> three attempts are made and the message
  cites 3. With no cap (\<open>-1\<close>), and also with \<open>NaN\<close> or \<open>Infinity\<close>, a failed attempt
  is always followed by a sleep. And an \<open>onReconnecting\<close> observer that throws ends
  \<open>connectWithRetry\<close> at once, outside its \<open>try\<close> block: the initial connect is
  rejected with the observer's error before the broker client is called.
\<close>

lemma fractional_cap_example:
  "map_option (\<lambda>w. (hd (trace w), count_list (trace w) ConnectCalled, loop w))
     (run (ex_options0\<lparr>reconnect := DEFAULT_RECONNECT\<lparr>maxRetries := Finite 2.5\<rparr>\<rparr>) 0 quiet
        (all_attempts_fail ''ECONNREFUSED''
           [(Returns, ''ECONNREFUSED''), (Returns, ''ECONNREFUSED'')])
        (createConnection (ex_options0\<lparr>reconnect := DEFAULT_RECONNECT\<lparr>maxRetries := Finite 2.5\<rparr>\<rparr>)
           Returns))
   = Some (LoopRejected ''Failed to connect after 3 attempts: ECONNREFUSED'', 3, Idle)"
  by (simp add: machine_defs ex_options0_def DEFAULT_RECONNECT_def Let_def
      show_nat.simps digit_char_def)

lemma no_cap_never_gives_up:
  assumes "maxRetries (reconnect opts) \<in> {Finite (- 1), NaN, PosInfinity}"
  shows "retry_or_fail opts a d msg w = emit (SleepStarted d) (w\<lparr>loop := Sleeping a d\<rparr>)"
  using assms by (auto simp: retry_or_fail_def)

lemma onReconnecting_throws_example:
  "trace (createConnection ex_options3 (Throws ''observer failed'') :: nat world)
     = [LoopRejected ''observer failed'', OnReconnectingCalled 1, LoopEntered]
   \<and> loop (createConnection ex_options3 (Throws ''observer failed'') :: nat world) = Idle"
  by (simp add: machine_defs ex_options3_def Let_def)


subsection \<open>Publisher\<close>

text \<open>
  C9. Every call of \<open>publish\<close> made while the channel is absent or the publisher is
  not ready is rejected at once with the failure "Publisher not ready", increments the
  publish-failure counter by one and leaves the rest of the state alone, and issues no
  broker-level publish call at all (so nothing is retried either).
\<close>

theorem publish_not_ready:
  assumes "pub_channel s = None \<or> \<not> isReady s"
  shows "publish opts reply now s rk c =
           (Rejects ''Publisher not ready'',
            s\<lparr>messagesPublishFailed := messagesPublishFailed s + 1\<rparr>, [])"
  using assms by (auto simp: publish_def split: option.splits)

theorem publish_not_ready_witness:
  "publish (publisher_defaults ''events'') Confirmed 7
     \<lparr>pub_channel = None, isReady = False, messagesPublished = 0,
      messagesPublishFailed = 0, lastPublishAt = None\<rparr>
     ''user.created'' (StringContent ''x'')
   = (Rejects ''Publisher not ready'',
      \<lparr>pub_channel = None, isReady = False, messagesPublished = 0,
       messagesPublishFailed = 1, lastPublishAt = None\<rparr>, [])"
  using publish_not_ready
    [of "\<lparr>pub_channel = None, isReady = False, messagesPublished = 0,
          messagesPublishFailed = 0, lastPublishAt = None\<rparr>"
        "publisher_defaults ''events''" Confirmed 7 "''user.created''" "StringContent ''x''"]
  by simp


subsection \<open>Bridge: the error-log rate limiter\<close>

lemma shouldLogError_in_window:
  "now - lastErrorLogReset s \<le> ERROR_LOG_WINDOW_MS \<Longrightarrow>
   shouldLogError now s =
     (errorLogCount s + 1 \<le> ERROR_LOG_LIMIT, s\<lparr>errorLogCount := errorLogCount s + 1\<rparr>, [])"
  by (simp add: shouldLogError_def)

lemma shouldLogError_rollover:
  "now - lastErrorLogReset s > ERROR_LOG_WINDOW_MS \<Longrightarrow>
   shouldLogError now s =
     (True, s\<lparr>errorLogCount := 1, lastErrorLogReset := now\<rparr>,
      if errorLogCount s > ERROR_LOG_LIMIT then
        [LogWarn (''[bridge] Suppressed '' @ show_nat (errorLogCount s - ERROR_LOG_LIMIT)
           @ '' error logs in last 5000ms'')]
      else [])"
  by (simp add: shouldLogError_def ERROR_LOG_LIMIT_def ERROR_LOG_WINDOW_MS_def
      show_nat.simps digit_char_def)

lemma burst_in_window:
  "\<forall>t \<in> set ts. t - lastErrorLogReset s \<le> ERROR_LOG_WINDOW_MS \<Longrightarrow>
   burst ts s =
     (replicate (min (length ts) (ERROR_LOG_LIMIT - errorLogCount s)) True
        @ replicate (length ts - (ERROR_LOG_LIMIT - errorLogCount s)) False,
      s\<lparr>errorLogCount := errorLogCount s + length ts\<rparr>, [])"
proof (induction ts arbitrary: s)
  case Nil
  then show ?case by simp
next
  case (Cons t ts)
  let ?s1 = "s\<lparr>errorLogCount := errorLogCount s + 1\<rparr>"
  have step: "shouldLogError t s = (errorLogCount s + 1 \<le> ERROR_LOG_LIMIT, ?s1, [])"
    using Cons.prems by (simp add: shouldLogError_in_window)
  have "\<forall>t \<in> set ts. t - lastErrorLogReset ?s1 \<le> ERROR_LOG_WINDOW_MS"
    using Cons.prems by simp
  from Cons.IH [OF this] have rest: "burst ts ?s1 =
     (replicate (min (length ts) (ERROR_LOG_LIMIT - Suc (errorLogCount s))) True
        @ replicate (length ts - (ERROR_LOG_LIMIT - Suc (errorLogCount s))) False,
      s\<lparr>errorLogCount := Suc (errorLogCount s + length ts)\<rparr>, [])"
    by simp
  show ?case
  proof (cases "ERROR_LOG_LIMIT - errorLogCount s")
    case 0
    then have "\<not> errorLogCount s + 1 \<le> ERROR_LOG_LIMIT" and "ERROR_LOG_LIMIT - Suc (errorLogCount s) = 0"
      by simp_all
    with step rest 0 show ?thesis by simp
  next
    case (Suc d)
    then have "errorLogCount s + 1 \<le> ERROR_LOG_LIMIT" and "ERROR_LOG_LIMIT - Suc (errorLogCount s) = d"
      by simp_all
    with step rest Suc show ?thesis by simp
  qed
qed

text \<open>
  C8 (as amended). A window of the limiter is opened either by \<open>createBridge\<close> (the
  counter is 0, and the window runs from \<open>lastErrorLogReset\<close>) or by the first error
  that arrives more than 5000 ms after the last reset: that error resets the counter,
  makes its own arrival the new \<open>lastErrorLogReset\<close> and counts as the first error of
  the window it opens. Take, from any state \<open>s\<close> of the bridge, \<open>10 + k\<close> errors that
  make up one window: the first error \<open>t0\<close> either finds the counter at 0 inside the
  current window (which began at \<open>start = lastErrorLogReset\<close>) or opens a window itself
  (\<open>start = t0\<close>), and every further error arrives at most 5000 ms after \<open>start\<close>. Then
  exactly the first 10 of these errors are logged and the other \<open>k\<close> are not; the only
  line written meanwhile is the summary of the window before, if \<open>t0\<close> has closed one
  with suppressed errors. The first error that arrives after the window has run out
  resets the counter and the window, counts as the first error of the new window, and
  is preceded by exactly one summary line that reports \<open>k\<close> suppressed errors when
  \<open>k > 0\<close>, and by no summary line at all when \<open>k = 0\<close>.
\<close>

theorem rate_limiter_burst:
  assumes len: "Suc (length rest) = ERROR_LOG_LIMIT + k"
    and opened: "(errorLogCount s = 0 \<and> t0 - lastErrorLogReset s \<le> ERROR_LOG_WINDOW_MS
                    \<and> start = lastErrorLogReset s)
               \<or> (t0 - lastErrorLogReset s > ERROR_LOG_WINDOW_MS \<and> start = t0)"
    and inside: "\<forall>t \<in> set rest. t - start \<le> ERROR_LOG_WINDOW_MS"
    and later: "t' - start > ERROR_LOG_WINDOW_MS"
  shows "burst (t0 # rest) s =
           (replicate ERROR_LOG_LIMIT True @ replicate k False,
            s\<lparr>errorLogCount := ERROR_LOG_LIMIT + k, lastErrorLogReset := start\<rparr>,
            if t0 - lastErrorLogReset s > ERROR_LOG_WINDOW_MS \<and> errorLogCount s > ERROR_LOG_LIMIT
            then [LogWarn (''[bridge] Suppressed '' @ show_nat (errorLogCount s - ERROR_LOG_LIMIT)
                    @ '' error logs in last 5000ms'')]
            else [])
         \<and> shouldLogError t'
             (s\<lparr>errorLogCount := ERROR_LOG_LIMIT + k, lastErrorLogReset := start\<rparr>) =
           (True, s\<lparr>errorLogCount := 1, lastErrorLogReset := t'\<rparr>,
            if 0 < k then
              [LogWarn (''[bridge] Suppressed '' @ show_nat k @ '' error logs in last 5000ms'')]
            else [])"
proof -
  let ?s' = "s\<lparr>errorLogCount := ERROR_LOG_LIMIT + k, lastErrorLogReset := start\<rparr>"
  have one: "burst (t0 # rest) s =
           (replicate ERROR_LOG_LIMIT True @ replicate k False, ?s',
            if t0 - lastErrorLogReset s > ERROR_LOG_WINDOW_MS \<and> errorLogCount s > ERROR_LOG_LIMIT
            then [LogWarn (''[bridge] Suppressed '' @ show_nat (errorLogCount s - ERROR_LOG_LIMIT)
                    @ '' error logs in last 5000ms'')]
            else [])"
    using opened
  proof
    assume a: "errorLogCount s = 0 \<and> t0 - lastErrorLogReset s \<le> ERROR_LOG_WINDOW_MS
                 \<and> start = lastErrorLogReset s"
    then have "\<forall>t \<in> set (t0 # rest). t - lastErrorLogReset s \<le> ERROR_LOG_WINDOW_MS"
      using inside by simp
    from burst_in_window [OF this] a len show ?thesis by simp
  next
    assume b: "t0 - lastErrorLogReset s > ERROR_LOG_WINDOW_MS \<and> start = t0"
    let ?s1 = "s\<lparr>errorLogCount := 1, lastErrorLogReset := t0\<rparr>"
    from b have first: "shouldLogError t0 s =
        (True, ?s1,
         if errorLogCount s > ERROR_LOG_LIMIT then
           [LogWarn (''[bridge] Suppressed '' @ show_nat (errorLogCount s - ERROR_LOG_LIMIT)
              @ '' error logs in last 5000ms'')]
         else [])"
      by (simp add: shouldLogError_rollover)
    have "\<forall>t \<in> set rest. t - lastErrorLogReset ?s1 \<le> ERROR_LOG_WINDOW_MS"
      using inside b by simp
    from burst_in_window [OF this]
    have "burst rest ?s1 =
        (replicate (min (length rest) (ERROR_LOG_LIMIT - 1)) True
           @ replicate (length rest - (ERROR_LOG_LIMIT - 1)) False,
         s\<lparr>errorLogCount := 1 + length rest, lastErrorLogReset := t0\<rparr>, [])"
      by simp
    moreover have "min (length rest) (ERROR_LOG_LIMIT - 1) = ERROR_LOG_LIMIT - 1"
      "length rest - (ERROR_LOG_LIMIT - 1) = k" "1 + length rest = ERROR_LOG_LIMIT + k"
      using len by (simp_all add: ERROR_LOG_LIMIT_def)
    moreover have "True # replicate (ERROR_LOG_LIMIT - 1) True = replicate ERROR_LOG_LIMIT True"
      by (simp add: ERROR_LOG_LIMIT_def numeral_eq_Suc)
    ultimately show ?thesis using first b by simp
  qed
  have "t' - lastErrorLogReset ?s' > ERROR_LOG_WINDOW_MS"
    using later by simp
  from shouldLogError_rollover [OF this] have two:
    "shouldLogError t' ?s' =
           (True, s\<lparr>errorLogCount := 1, lastErrorLogReset := t'\<rparr>,
            if 0 < k then
              [LogWarn (''[bridge] Suppressed '' @ show_nat k @ '' error logs in last 5000ms'')]
            else [])"
    by simp
  from one two show ?thesis by simp
qed

theorem rate_limiter_burst_witness:
  "burst [6000, 6100, 6200, 6300, 6400, 6500, 6600, 6700, 6800, 6900, 7000, 7100]
     (bridge_initial 0) =
     (replicate 10 True @ replicate 2 False,
      (bridge_initial 0)\<lparr>errorLogCount := 12, lastErrorLogReset := 6000\<rparr>, [])
   \<and> shouldLogError 12000 ((bridge_initial 0)\<lparr>errorLogCount := 12, lastErrorLogReset := 6000\<rparr>) =
     (True, (bridge_initial 0)\<lparr>errorLogCount := 1, lastErrorLogReset := 12000\<rparr>,
      [LogWarn ''[bridge] Suppressed 2 error logs in last 5000ms''])"
  using rate_limiter_burst
    [of "[6100, 6200, 6300, 6400, 6500, 6600, 6700, 6800, 6900, 7000, 7100]" 2
        "bridge_initial 0" 6000 6000 12000]
  by (simp add: bridge_initial_def ERROR_LOG_LIMIT_def ERROR_LOG_WINDOW_MS_def
      show_nat.simps digit_char_def)

text \<open>
  C8 as it is stated fails in two ways. After a run of exactly 10 errors (\<open>k = 0\<close>)
  the rollover writes no summary line. And the window is anchored at the last reset,
  not at the run: 15 errors that arrive within 1001 ms, ten before the window of a
  limiter created at time 0 runs out and five after, are all logged.
\<close>

theorem rate_limiter_counterexample:
  "snd (snd (shouldLogError 6000
      (fst (snd (burst [100, 100, 100, 100, 100, 100, 100, 100, 100, 100] (bridge_initial 0))))))
     = []
   \<and> fst (burst [4000, 4000, 4000, 4000, 4000, 4000, 4000, 4000, 4000, 4000,
                 5001, 5001, 5001, 5001, 5001] (bridge_initial 0))
     = [True, True, True, True, True, True, True, True, True, True,
        True, True, True, True, True]"
  by (simp add: bridge_initial_def shouldLogError_def ERROR_LOG_LIMIT_def
      ERROR_LOG_WINDOW_MS_def)

subsection \<open>Consumer and bridge: negative acknowledgment\<close>

text \<open>
  C6 (as amended). Consumer: when the caller's handler fails and the error callback, if
  one is configured, returns normally, then in whatever state the consumer is when the
  handler settles, the failure is counted, \<open>handleMessage\<close> completes normally, and
  if the channel handle is still there the only channel call is
  \<open>nack(msg, false, requeue)\<close> with \<open>requeue\<close> true exactly when the message's
  \<open>redelivered\<close> flag is false; whatever the \<open>nack\<close> call does is swallowed (the
  result does not depend on it), and so is the missing channel handle, in which case
  there is no call. Bridge: a forwarding failure whose description contains neither
  "Channel closed" nor "channel closed" is followed by exactly one
  \<open>nack(msg, false, requeue)\<close> on the source channel with the same rule.
\<close>

theorem nack_requeue_rule:
  assumes "handler_result cenv = Throws err"
    and "\<not> onError_given copts \<or> onError_result cenv = Returns"
    and "forward_reply benv = Throws berr"
    and "\<not> str_includes berr ''Channel closed''" and "\<not> str_includes berr ''channel closed''"
    and "consumerChannel bs = Some cc" and "producerChannel bs = Some pc"
  shows "consumer_settle copts cenv msg cs =
           (Inr (), cs\<lparr>messagesConsumeFailed := messagesConsumeFailed cs + 1\<rparr>,
            (if onError_given copts then OnErrorCall err else ErrorLogged err)
              # (case con_channel cs of
                   None \<Rightarrow> []
                 | Some ch \<Rightarrow> [ChannelCall (NackCall ch msg False (\<not> redelivered msg))]))
         \<and> fst (snd (bridge_handleMessage bopts benv (Some msg) ex bs)) =
           [PublishCall
              \<lparr>pc_channel = pc, pc_exchange = ex, pc_routingKey = routingKey msg,
               pc_body = body msg, pc_contentType = ''application/json'',
               pc_deliveryMode = b_deliveryMode bopts,
               pc_persistent = (b_deliveryMode bopts = 2)\<rparr>,
            NackCall cc msg False (\<not> redelivered msg)]"
proof -
  have c: "consumer_settle copts cenv msg cs =
           (Inr (), cs\<lparr>messagesConsumeFailed := messagesConsumeFailed cs + 1\<rparr>,
            (if onError_given copts then OnErrorCall err else ErrorLogged err)
              # (case con_channel cs of
                   None \<Rightarrow> []
                 | Some ch \<Rightarrow> [ChannelCall (NackCall ch msg False (\<not> redelivered msg))]))"
    using assms(1,2) by (auto simp: consumer_settle_def consumer_on_failure_def Let_def)
  have b: "fst (snd (bridge_on_failure benv cc msg ex berr bs)) =
             [NackCall cc msg False (\<not> redelivered msg)]"
    using assms(4,5)
    by (simp add: bridge_on_failure_def Let_def split: prod.splits outcome.splits)
  have "fst (snd (bridge_handleMessage bopts benv (Some msg) ex bs)) =
           PublishCall
              \<lparr>pc_channel = pc, pc_exchange = ex, pc_routingKey = routingKey msg,
               pc_body = body msg, pc_contentType = ''application/json'',
               pc_deliveryMode = b_deliveryMode bopts,
               pc_persistent = (b_deliveryMode bopts = 2)\<rparr>
           # fst (snd (bridge_on_failure benv cc msg ex berr bs))"
    using assms(3,6,7) by (simp add: bridge_handleMessage_def Let_def split: prod.splits)
  with b c show ?thesis by simp
qed


theorem nack_requeue_rule_witness:
  "consumer_settle ex_consumer_options ex_consumer_env ex_message ex_consumer_state =
     (Inr (), ex_consumer_state\<lparr>messagesConsumeFailed := 1\<rparr>,
      [OnErrorCall ''handler failed'', ChannelCall (NackCall 3 ex_message False True)])
   \<and> fst (snd (bridge_handleMessage (bridge_defaults [''events'']) ex_bridge_env
        (Some ex_message) ''events'' ex_bridge_state)) =
     [PublishCall
        \<lparr>pc_channel = 6, pc_exchange = ''events'', pc_routingKey = ''user.created'',
         pc_body = ''{}'', pc_contentType = ''application/json'', pc_deliveryMode = 2,
         pc_persistent = True\<rparr>,
      NackCall 5 ex_message False True]"
  using nack_requeue_rule
    [where cenv = ex_consumer_env and err = "''handler failed''"
       and copts = ex_consumer_options and benv = ex_bridge_env and berr = "''timeout''"
       and bs = ex_bridge_state and cc = 5 and pc = 6 and msg = ex_message
       and cs = ex_consumer_state and bopts = "bridge_defaults [''events'']"
       and ex = "''events''"]
  by (simp add: ex_consumer_env_def ex_consumer_options_def ex_bridge_env_def
      ex_bridge_state_def ex_message_def ex_consumer_state_def bridge_defaults_def)

text \<open>
  C6 as it is stated fails when an error callback is configured and throws: the
  exception leaves \<open>handleMessage\<close> before the negative acknowledgment, so the failed
  message is not nacked at all and \<open>handleMessage\<close> itself rejects.
\<close>

theorem nack_skipped_counterexample:
  "consumer_handleMessage ex_consumer_options
     (ex_consumer_env\<lparr>onError_result := Throws ''callback failed''\<rparr>)
     (Some ex_message) ex_consumer_state =
   (Inl ''callback failed'', ex_consumer_state\<lparr>messagesConsumeFailed := 1\<rparr>,
    [OnErrorCall ''handler failed''])"
  by (simp add: consumer_handleMessage_def consumer_settle_def consumer_on_failure_def
      ex_consumer_env_def ex_consumer_options_def ex_consumer_state_def)

subsection \<open>Bridge: the returned object\<close>

text \<open>
  C10. The object that \<open>createBridge\<close> returns has exactly the properties \<open>start\<close>,
  \<open>stop\<close>, \<open>isRunning\<close>, \<open>getMetrics\<close> and \<open>getState\<close>, each bound to the
  operation of that name; reading any other property from it, \<open>close\<close> in particular,
  gives \<open>undefined\<close>, although the \<open>Bridge\<close> interface declares a \<open>close\<close> member.
\<close>

theorem createBridge_object_members:
  "bridge_object (fst (createBridge options now mgrs)) =
     [(''start'', BrStart), (''stop'', BrStop), (''isRunning'', BrIsRunning),
      (''getMetrics'', BrGetMetrics), (''getState'', BrGetState)]
   \<and> bridge_property (fst (createBridge options now mgrs)) ''start'' = Some BrStart
   \<and> bridge_property (fst (createBridge options now mgrs)) ''stop'' = Some BrStop
   \<and> bridge_property (fst (createBridge options now mgrs)) ''isRunning'' = Some BrIsRunning
   \<and> bridge_property (fst (createBridge options now mgrs)) ''getMetrics'' = Some BrGetMetrics
   \<and> bridge_property (fst (createBridge options now mgrs)) ''getState'' = Some BrGetState
   \<and> (\<forall>name. name \<in> set [''start'', ''stop'', ''isRunning'', ''getMetrics'', ''getState'']
         \<or> bridge_property (fst (createBridge options now mgrs)) name = None)
   \<and> bridge_property (fst (createBridge options now mgrs)) ''close'' = None
   \<and> ''close'' \<in> set Bridge_interface"
  by (simp add: createBridge_def bridge_property_def Bridge_interface_def)

subsection \<open>Components and the reconnect subscribers\<close>

text \<open>
  C1, at the failing input. Constructing a publisher leaves the manager's set of
  reconnect subscribers exactly as it was: \<open>createPublisher\<close> registers no subscriber,
  so no reconnect signal of the manager ever reaches the publisher.
\<close>

theorem createPublisher_registers_nothing:
  "reconnectSubscribers (snd (createPublisher env opts m)) = reconnectSubscribers m"
  by (simp add: createPublisher_def split: prod.splits sum.splits)

text \<open>
  C2, at the failing input. \<open>createBridge\<close> leaves the sets of reconnect subscribers
  of the source and of the target manager exactly as they were: it registers nothing,
  so a reconnect of either manager does not call the bridge's \<open>start\<close>.
\<close>

theorem createBridge_registers_nothing:
  "reconnectSubscribers (fst (snd (createBridge options now (src, tgt)))) = reconnectSubscribers src
   \<and> reconnectSubscribers (snd (snd (createBridge options now (src, tgt)))) = reconnectSubscribers tgt"
  by (simp add: createBridge_def)

text \<open>
  For comparison, the consumer: a successful \<open>createConsumer\<close> adds exactly its own
  callback to the subscriber set and keeps the handle to remove it; the callback's body
  \<open>handleReconnect\<close> re-runs \<open>setup\<close> and, when the setup succeeds, resumes
  consuming exactly if \<open>wasActive\<close> is set. A publisher whose channel has closed
  rejects every \<open>publish\<close>.
\<close>

lemma createConsumer_registers_one:
  assumes "createConsumer env opts cb m = (Inr s, m')"
    and "Some cb \<notin> set (reconnectSubscribers m)"
  shows "reconnectSubscribers m' = reconnectSubscribers m @ [Some cb]
       \<and> unsubscribeReconnect s = Some cb"
  using assms
  by (auto simp: createConsumer_def onReconnect_def set_add_def split: prod.splits sum.splits)

lemma handleReconnect_resumes:
  assumes "consumer_setup env opts m s = (Inr (), s1)" and "wasActive s1"
  shows "handleReconnect env (Consuming tag) opts m s =
           s1\<lparr>consumerTag := Some tag, isActive := True, wasActive := True\<rparr>"
proof -
  from assms(1) have "con_channel s1 \<noteq> None"
    by (auto simp: consumer_setup_def Let_def split: option.splits outcome.splits)
  with assms show ?thesis
    by (auto simp: handleReconnect_def startConsuming_def)
qed

lemma handleReconnect_stays_stopped:
  assumes "consumer_setup env opts m s = (Inr (), s1)" and "\<not> wasActive s1"
  shows "handleReconnect env r opts m s = s1"
  using assms by (simp add: handleReconnect_def)

lemma publisher_stays_not_ready:
  "fst (publish opts reply now (publisher_on_channel_close p) rk c) = Rejects ''Publisher not ready''"
  by (simp add: publish_def publisher_on_channel_close_def)

end
